theory Spec2Isabelle
  imports Complex_Main "HOL-Library.Multiset" "HOL-Library.AList" "HOL-Library.Word"
begin

section \<open>The float64 numbers of numpy\<close>

text \<open>
  An element of a float array is an IEEE 754 binary64 number: a finite number, negative
  zero, an infinity or \<open>NaN\<close>. \<open>Fin r\<close> stands for the finite number \<open>r\<close>, \<open>Fin 0\<close> for positive
  zero and \<open>MZero\<close> for negative zero. Every arithmetic operation computes the exact result and
  rounds it to the nearest binary64 number, ties to even, as the hardware does; what is too
  large becomes an infinity and what is too small becomes a zero.
\<close>

datatype float64 = Fin real | MZero | PInf | NInf | NaN

fun is_neg :: "float64 \<Rightarrow> bool" where
  "is_neg (Fin r) = (r < 0)"
| "is_neg MZero = True"
| "is_neg NInf = True"
| "is_neg PInf = False"
| "is_neg NaN = False"

fun is_zero :: "float64 \<Rightarrow> bool" where
  "is_zero (Fin r) = (r = 0)"
| "is_zero MZero = True"
| "is_zero PInf = False"
| "is_zero NInf = False"
| "is_zero NaN = False"

fun is_inf :: "float64 \<Rightarrow> bool" where
  "is_inf PInf = True"
| "is_inf NInf = True"
| "is_inf (Fin r) = False"
| "is_inf MZero = False"
| "is_inf NaN = False"

fun val :: "float64 \<Rightarrow> real" where
  "val (Fin r) = r"
| "val MZero = 0"
| "val PInf = 0"
| "val NInf = 0"
| "val NaN = 0"

definition zero_of :: "bool \<Rightarrow> float64" where
  "zero_of neg = (if neg then MZero else Fin 0)"

definition inf_of :: "bool \<Rightarrow> float64" where
  "inf_of neg = (if neg then NInf else PInf)"

text \<open>Rounding to the nearest integer, a tie to the even one.\<close>

definition round_half_even :: "real \<Rightarrow> int" where
  "round_half_even y =
     (let f = \<lfloor>y\<rfloor> in
      if y - of_int f < 1/2 then f
      else if 1/2 < y - of_int f then f + 1
      else if even f then f else f + 1)"

text \<open>
  The exponent of a magnitude: the least \<open>e\<close> from \<open>-1022\<close> on with \<open>x < 2 ^ (e + 1)\<close>, so that
  all subnormal numbers share the exponent \<open>-1022\<close>. A magnitude is rounded to the nearest
  multiple of \<open>2 ^ (e - 52)\<close>, which leaves 53 significant bits.
\<close>

definition binade :: "real \<Rightarrow> int" where
  "binade x =
     (case find (\<lambda>e. x < 2 powi (e + 1)) [-1022..1023] of Some e \<Rightarrow> e | None \<Rightarrow> 1024)"

definition round_mag :: "real \<Rightarrow> real" where
  "round_mag x = (let u = 2 powi (binade x - 52) in of_int (round_half_even (x / u)) * u)"

text \<open>The binary64 number of a sign and an exact magnitude.\<close>

definition mk_float64 :: "bool \<Rightarrow> real \<Rightarrow> float64" where
  "mk_float64 neg x =
     (let r = round_mag x in
      if 2 ^ 1024 \<le> r then inf_of neg
      else if r = 0 then zero_of neg
      else Fin (if neg then - r else r))"

fun np_neg :: "float64 \<Rightarrow> float64" where
  "np_neg (Fin r) = (if r = 0 then MZero else Fin (- r))"
| "np_neg MZero = Fin 0"
| "np_neg PInf = NInf"
| "np_neg NInf = PInf"
| "np_neg NaN = NaN"

definition np_add :: "float64 \<Rightarrow> float64 \<Rightarrow> float64" where
  "np_add a b =
     (if a = NaN \<or> b = NaN then NaN
      else if is_inf a then (if is_inf b \<and> a \<noteq> b then NaN else a)
      else if is_inf b then b
      else
        (let s = val a + val b in
         if s = 0 then (if is_neg a \<and> is_neg b then MZero else Fin 0)
         else mk_float64 (s < 0) \<bar>s\<bar>))"

definition np_sub :: "float64 \<Rightarrow> float64 \<Rightarrow> float64" where
  "np_sub a b = np_add a (np_neg b)"

definition np_mul :: "float64 \<Rightarrow> float64 \<Rightarrow> float64" where
  "np_mul a b =
     (if a = NaN \<or> b = NaN then NaN
      else if is_inf a \<or> is_inf b then
        (if is_zero a \<or> is_zero b then NaN else inf_of (is_neg a \<noteq> is_neg b))
      else mk_float64 (is_neg a \<noteq> is_neg b) (\<bar>val a\<bar> * \<bar>val b\<bar>))"

text \<open>
  Division as numpy does it with the warnings it only prints: \<open>0/0\<close> is not a number, a
  non-zero number over a zero is an infinity.
\<close>

definition np_div :: "float64 \<Rightarrow> float64 \<Rightarrow> float64" where
  "np_div a b =
     (if a = NaN \<or> b = NaN then NaN
      else if is_inf a then (if is_inf b then NaN else inf_of (is_neg a \<noteq> is_neg b))
      else if is_inf b then zero_of (is_neg a \<noteq> is_neg b)
      else if is_zero b then
        (if is_zero a then NaN else inf_of (is_neg a \<noteq> is_neg b))
      else mk_float64 (is_neg a \<noteq> is_neg b) (\<bar>val a\<bar> / \<bar>val b\<bar>))"

text \<open>Truth value of a number: everything but the two zeros, so also \<open>NaN\<close>.\<close>

definition truthy :: "float64 \<Rightarrow> bool" where
  "truthy x = (\<not> is_zero x)"

text \<open>The comparison \<open>==\<close>: \<open>NaN\<close> equals nothing, the two zeros are equal.\<close>

definition np_eq :: "float64 \<Rightarrow> float64 \<Rightarrow> bool" where
  "np_eq a b = (a \<noteq> NaN \<and> b \<noteq> NaN \<and> (a = b \<or> (is_zero a \<and> is_zero b)))"

text \<open>The largest finite binary64 number, which \<open>np.nan_to_num\<close> puts in the place of
  infinity.\<close>

definition float_max :: real where
  "float_max = 2 ^ 1024 - 2 ^ 971"

fun nan_to_num1 :: "float64 \<Rightarrow> float64" where
  "nan_to_num1 NaN = Fin 0"
| "nan_to_num1 PInf = Fin float_max"
| "nan_to_num1 NInf = Fin (- float_max)"
| "nan_to_num1 (Fin a) = Fin a"
| "nan_to_num1 MZero = MZero"

text \<open>
  The sum of a float array, in numpy's order of additions: fewer than eight numbers are
  added from left to right; up to 128 numbers go into eight running sums that are added in
  pairs at the end, the remainder following one by one; a longer array is split in two.
\<close>

fun add_blocks :: "float64 list \<Rightarrow> float64 list \<Rightarrow> float64 list \<times> float64 list" where
  "add_blocks r xs =
     (if 8 \<le> length xs then add_blocks (map2 np_add r (take 8 xs)) (drop 8 xs) else (r, xs))"

definition block_sum :: "float64 list \<Rightarrow> float64" where
  "block_sum a =
     (case add_blocks (take 8 a) (drop 8 a) of
        (r, rest) \<Rightarrow>
          foldl np_add
            (np_add (np_add (np_add (r ! 0) (r ! 1)) (np_add (r ! 2) (r ! 3)))
                    (np_add (np_add (r ! 4) (r ! 5)) (np_add (r ! 6) (r ! 7))))
            rest)"

function pairwise_sum :: "float64 list \<Rightarrow> float64" where
  "pairwise_sum a =
     (if length a < 8 then foldl np_add (Fin 0) a
      else if length a \<le> 128 then block_sum a
      else
        (let n2 = length a div 2 - (length a div 2) mod 8
         in np_add (pairwise_sum (take n2 a)) (pairwise_sum (drop n2 a))))"
  by pat_completeness auto
termination
  by (relation "measure length") auto

section \<open>The numbers of an array\<close>

text \<open>
  An element of a numeric array is a float64 or an int64. Arithmetic on two int64 numbers
  wraps around, as numpy's does; where the two kinds meet, the int64 number is converted to
  the nearest float64 first. The true division always gives a float64.
\<close>

datatype num = F float64 | I "64 word"

definition float_of_int64 :: "64 word \<Rightarrow> float64" where
  "float_of_int64 w = mk_float64 (sint w < 0) \<bar>of_int (sint w)\<bar>"

fun to_float :: "num \<Rightarrow> float64" where
  "to_float (F x) = x"
| "to_float (I w) = float_of_int64 w"

fun is_I :: "num \<Rightarrow> bool" where
  "is_I (I w) = True"
| "is_I (F x) = False"

fun the_I :: "num \<Rightarrow> 64 word" where
  "the_I (I w) = w"
| "the_I (F x) = 0"

fun num_mul :: "num \<Rightarrow> num \<Rightarrow> num" where
  "num_mul (I a) (I b) = I (a * b)"
| "num_mul (F a) y = F (np_mul a (to_float y))"
| "num_mul (I a) (F b) = F (np_mul (float_of_int64 a) b)"

fun num_add :: "num \<Rightarrow> num \<Rightarrow> num" where
  "num_add (I a) (I b) = I (a + b)"
| "num_add (F a) y = F (np_add a (to_float y))"
| "num_add (I a) (F b) = F (np_add (float_of_int64 a) b)"

fun num_sub :: "num \<Rightarrow> num \<Rightarrow> num" where
  "num_sub (I a) (I b) = I (a - b)"
| "num_sub (F a) y = F (np_sub a (to_float y))"
| "num_sub (I a) (F b) = F (np_sub (float_of_int64 a) b)"

fun num_truthy :: "num \<Rightarrow> bool" where
  "num_truthy (F x) = truthy x"
| "num_truthy (I w) = (w \<noteq> 0)"

text \<open>The comparison \<open>==\<close> of two elements.\<close>

fun num_eq :: "num \<Rightarrow> num \<Rightarrow> bool" where
  "num_eq (I a) (I b) = (a = b)"
| "num_eq (F a) y = np_eq a (to_float y)"
| "num_eq (I a) (F b) = np_eq (float_of_int64 a) b"

section \<open>One-dimensional arrays\<close>

text \<open>
  Every array of the program is one-dimensional. \<open>FloatArray\<close> is an array of dtype float64,
  \<open>IntArray\<close> one of dtype int64, and \<open>StrArray\<close> an array of strings, the kind of array that
  holds no numbers. An element read from an array is a numpy scalar of the same kind. Arrays
  of other dtypes are not part of the model.
\<close>

datatype ndarray = FloatArray "float64 list" | IntArray "64 word list" | StrArray "string list"

datatype scalar = Num num | Str string

text \<open>
  The exceptions the program raises itself, each with the place it comes from, and the ones
  Python and numpy raise under it. The message of the error of \<open>compute_pi_msg_to_child\<close> is
  kept as the program writes it.
\<close>

datatype exn =
    ValueError_label_not_allowed
  | TypeError_not_ndarray
  | ValueError_dimensions
  | ValueError_missing_msg string
  | ValueError_no_lambda_msg_from_child string
  | InvalidLambdaMsgToParent
  | NotImplementedError
  | AttributeError
  | KeyError
  | IndexError
  | TypeError
  | ValueError_broadcast

fun shape :: "ndarray \<Rightarrow> nat list" where
  "shape (FloatArray xs) = [length xs]"
| "shape (IntArray ws) = [length ws]"
| "shape (StrArray ss) = [length ss]"

fun is_numeric :: "ndarray \<Rightarrow> bool" where
  "is_numeric (FloatArray xs) = True"
| "is_numeric (IntArray ws) = True"
| "is_numeric (StrArray ss) = False"

fun is_int_array :: "ndarray \<Rightarrow> bool" where
  "is_int_array (IntArray ws) = True"
| "is_int_array (FloatArray xs) = False"
| "is_int_array (StrArray ss) = False"

text \<open>The elements of a numeric array, and the same converted to float64.\<close>

fun nums :: "ndarray \<Rightarrow> num list" where
  "nums (FloatArray xs) = map F xs"
| "nums (IntArray ws) = map I ws"
| "nums (StrArray ss) = []"

definition as_floats :: "ndarray \<Rightarrow> float64 list" where
  "as_floats a = map to_float (nums a)"

definition np_ones :: "nat \<Rightarrow> ndarray" where
  "np_ones n = FloatArray (replicate n (Fin 1))"

text \<open>\<open>np.array\<close> of a list of numeric scalars: an int64 array when all of them are int64, a
  float64 array otherwise.\<close>

definition np_array :: "num list \<Rightarrow> ndarray" where
  "np_array xs =
     (if xs \<noteq> [] \<and> list_all is_I xs then IntArray (map the_I xs)
      else FloatArray (map to_float xs))"

text \<open>\<open>a.any()\<close>: some element is true; a string is true when it is not empty.\<close>

fun np_any :: "ndarray \<Rightarrow> bool" where
  "np_any (FloatArray xs) = list_ex truthy xs"
| "np_any (IntArray ws) = list_ex (\<lambda>w. w \<noteq> 0) ws"
| "np_any (StrArray ss) = list_ex (\<lambda>s. s \<noteq> []) ss"

definition np_sum :: "float64 list \<Rightarrow> float64" where
  "np_sum xs = pairwise_sum xs"

text \<open>\<open>np.array_equal\<close> of an attribute that may still be \<open>None\<close> and an array: equal shapes
  and equal elements; numbers never equal strings.\<close>

fun np_array_equal :: "ndarray option \<Rightarrow> ndarray \<Rightarrow> bool" where
  "np_array_equal None b = False"
| "np_array_equal (Some (StrArray ss)) (StrArray ts) = (ss = ts)"
| "np_array_equal (Some (StrArray ss)) (FloatArray ys) = False"
| "np_array_equal (Some (StrArray ss)) (IntArray ys) = False"
| "np_array_equal (Some (FloatArray xs)) (StrArray ts) = False"
| "np_array_equal (Some (IntArray xs)) (StrArray ts) = False"
| "np_array_equal (Some a) b =
     (length (nums a) = length (nums b) \<and> list_all2 num_eq (nums a) (nums b))"

fun nan_to_num :: "ndarray \<Rightarrow> ndarray" where
  "nan_to_num (FloatArray xs) = FloatArray (map nan_to_num1 xs)"
| "nan_to_num (IntArray ws) = IntArray ws"
| "nan_to_num (StrArray ss) = StrArray ss"

text \<open>
  An elementwise operation on two arrays: equal lengths go element by element, an array of
  length one is stretched over the other, anything else cannot be broadcast. The product of
  two int64 arrays is an int64 array; in every other numeric case both arrays are taken as
  float64, and the quotient is always float64. On an array of strings the operation has no
  loop, which is a type error found before the shapes are looked at.
\<close>

definition np_binop :: "('a \<Rightarrow> 'a \<Rightarrow> 'b) \<Rightarrow> 'a list \<Rightarrow> 'a list \<Rightarrow> exn + 'b list" where
  "np_binop f a b =
     (if length a = length b then Inr (map2 f a b)
      else if length a = 1 then Inr (map (f (hd a)) b)
      else if length b = 1 then Inr (map (\<lambda>x. f x (hd b)) a)
      else Inl ValueError_broadcast)"

definition float_result :: "exn + float64 list \<Rightarrow> exn + ndarray" where
  "float_result r = (case r of Inl e \<Rightarrow> Inl e | Inr xs \<Rightarrow> Inr (FloatArray xs))"

definition int_result :: "exn + 64 word list \<Rightarrow> exn + ndarray" where
  "int_result r = (case r of Inl e \<Rightarrow> Inl e | Inr ws \<Rightarrow> Inr (IntArray ws))"

fun np_multiply :: "ndarray \<Rightarrow> ndarray \<Rightarrow> exn + ndarray" where
  "np_multiply (IntArray a) (IntArray b) = int_result (np_binop (*) a b)"
| "np_multiply (StrArray a) b = Inl TypeError"
| "np_multiply (FloatArray a) (StrArray b) = Inl TypeError"
| "np_multiply (IntArray a) (StrArray b) = Inl TypeError"
| "np_multiply (FloatArray a) b = float_result (np_binop np_mul a (as_floats b))"
| "np_multiply (IntArray a) (FloatArray b) = float_result (np_binop np_mul (map float_of_int64 a) b)"

fun np_divide :: "ndarray \<Rightarrow> ndarray \<Rightarrow> exn + ndarray" where
  "np_divide (StrArray a) b = Inl TypeError"
| "np_divide (FloatArray a) (StrArray b) = Inl TypeError"
| "np_divide (IntArray a) (StrArray b) = Inl TypeError"
| "np_divide a b = float_result (np_binop np_div (as_floats a) (as_floats b))"

fun getitem :: "ndarray \<Rightarrow> nat \<Rightarrow> exn + scalar" where
  "getitem (FloatArray xs) i = (if i < length xs then Inr (Num (F (xs ! i))) else Inl IndexError)"
| "getitem (IntArray ws) i = (if i < length ws then Inr (Num (I (ws ! i))) else Inl IndexError)"
| "getitem (StrArray ss) i = (if i < length ss then Inr (Str (ss ! i)) else Inl IndexError)"

text \<open>The operator \<open>*\<close> on two numpy scalars: no arithmetic on strings.\<close>

fun sc_mul :: "scalar \<Rightarrow> scalar \<Rightarrow> exn + scalar" where
  "sc_mul (Num a) (Num b) = Inr (Num (num_mul a b))"
| "sc_mul (Str s) y = Inl TypeError"
| "sc_mul (Num a) (Str t) = Inl TypeError"

text \<open>
  \<open>functools.reduce\<close> without an initial value over \<open>np.multiply\<close> and over \<open>*\<close>, and with
  the initial value \<open>1\<close> over \<open>*\<close>. The Python integer \<open>1\<close> multiplies as the int64 number 1
  does: \<open>1 * x\<close> is \<open>x\<close> for an int64 and \<open>1.0 * x\<close> for a float64.
\<close>

fun fold_multiply :: "ndarray \<Rightarrow> ndarray list \<Rightarrow> exn + ndarray" where
  "fold_multiply acc [] = Inr acc"
| "fold_multiply acc (m # ms) =
     (case np_multiply acc m of Inl e \<Rightarrow> Inl e | Inr acc' \<Rightarrow> fold_multiply acc' ms)"

fun reduce_multiply :: "ndarray list \<Rightarrow> exn + ndarray" where
  "reduce_multiply [] = Inl TypeError"
| "reduce_multiply (m # ms) = fold_multiply m ms"

fun fold_times :: "scalar \<Rightarrow> scalar list \<Rightarrow> exn + scalar" where
  "fold_times acc [] = Inr acc"
| "fold_times acc (x # xs) =
     (case sc_mul acc x of Inl e \<Rightarrow> Inl e | Inr acc' \<Rightarrow> fold_times acc' xs)"

fun reduce_times :: "scalar list \<Rightarrow> exn + scalar" where
  "reduce_times [] = Inl TypeError"
| "reduce_times (x # xs) = fold_times x xs"

definition reduce_times_from_one :: "scalar list \<Rightarrow> exn + scalar" where
  "reduce_times_from_one xs = fold_times (Num (I 1)) xs"

fun getitems0 :: "ndarray list \<Rightarrow> exn + scalar list" where
  "getitems0 [] = Inr []"
| "getitems0 (m # ms) =
     (case getitem m 0 of Inl e \<Rightarrow> Inl e
      | Inr x \<Rightarrow> (case getitems0 ms of Inl e \<Rightarrow> Inl e | Inr xs \<Rightarrow> Inr (x # xs)))"

section \<open>Node\<close>

datatype MessageType = LAMBDA | PI

fun MessageType_value :: "MessageType \<Rightarrow> string" where
  "MessageType_value LAMBDA = ''lambda''"
| "MessageType_value PI = ''pi''"

text \<open>
  A mailbox is a Python dict from neighbour labels to a message or \<open>None\<close>: an association
  list in insertion order. The conditional probability table is an object of another module;
  the node uses only its \<open>values\<close>, kept here as the field \<open>cpd_values\<close>.
\<close>

type_synonym mailbox = "(string \<times> ndarray option) list"

record node =
  label_id :: string
  children :: "string list"
  parents :: "string list"
  cardinality :: nat
  cpd_values :: ndarray
  pi_agg :: "ndarray option"
  lambda_agg :: "ndarray option"
  pi_received_msgs :: mailbox
  lambda_received_msgs :: mailbox

text \<open>What a caller can hand to a deposit: an array, or some object that is not one.\<close>

datatype pyval = NdArray ndarray | PyList "float64 list" | PyFloat float64 | PyNone

definition init_received_msgs :: "string list \<Rightarrow> mailbox" where
  "init_received_msgs keys = map (\<lambda>k. (k, None)) (rev (remdups (rev keys)))"

definition Node_init ::
  "string \<Rightarrow> string list \<Rightarrow> string list \<Rightarrow> nat \<Rightarrow> ndarray \<Rightarrow> node" where
  "Node_init l cs ps k cpd =
     \<lparr> label_id = l, children = cs, parents = ps, cardinality = k, cpd_values = cpd,
       pi_agg = None, lambda_agg = None,
       pi_received_msgs = init_received_msgs ps,
       lambda_received_msgs = init_received_msgs cs \<rparr>"

text \<open>\<open>value / value.sum()\<close>: the sum of an int64 array wraps around and the quotient is in
  float64; the sum of an array of strings is a type error.\<close>

fun Node_normalize :: "ndarray \<Rightarrow> exn + ndarray" where
  "Node_normalize (FloatArray xs) = Inr (FloatArray (map (\<lambda>x. np_div x (np_sum xs)) xs))"
| "Node_normalize (IntArray ws) =
     Inr (FloatArray (map (\<lambda>w. np_div (float_of_int64 w) (float_of_int64 (sum_list ws))) ws))"
| "Node_normalize (StrArray ss) = Inl TypeError"

definition belief :: "node \<Rightarrow> exn + ndarray option" where
  "belief n =
     (case pi_agg n of None \<Rightarrow> Inl AttributeError
      | Some p \<Rightarrow>
          if np_any p then
            (case lambda_agg n of None \<Rightarrow> Inl AttributeError
             | Some l \<Rightarrow>
                 if np_any l then
                   (case np_multiply p l of Inl e \<Rightarrow> Inl e
                    | Inr b \<Rightarrow>
                        (case Node_normalize b of Inl e \<Rightarrow> Inl e | Inr v \<Rightarrow> Inr (Some v)))
                 else Inr None)
          else Inr None)"

definition return_msgs_received_for_msg_type :: "node \<Rightarrow> MessageType \<Rightarrow> ndarray option list" where
  "return_msgs_received_for_msg_type n mt =
     (case mt of LAMBDA \<Rightarrow> map snd (lambda_received_msgs n)
      | PI \<Rightarrow> map snd (pi_received_msgs n))"

definition validate_and_return_msgs_received_for_msg_type ::
  "node \<Rightarrow> MessageType \<Rightarrow> exn + ndarray list" where
  "validate_and_return_msgs_received_for_msg_type n mt =
     (let msg_values = return_msgs_received_for_msg_type n mt
      in if list_ex (\<lambda>msg. msg = None) msg_values
         then Inl (ValueError_missing_msg (MessageType_value mt))
         else Inr (map the msg_values))"

definition Node_compute_pi_agg :: "node \<Rightarrow> (exn + ndarray) \<times> node" where
  "Node_compute_pi_agg n = (Inl NotImplementedError, n)"

definition compute_lambda_agg :: "node \<Rightarrow> (exn + ndarray option) \<times> node" where
  "compute_lambda_agg n =
     (if children n = [] then (Inr (lambda_agg n), n)
      else
        (case validate_and_return_msgs_received_for_msg_type n LAMBDA of
           Inl e \<Rightarrow> (Inl e, n)
         | Inr lambda_msg_values \<Rightarrow>
             (case reduce_multiply lambda_msg_values of
                Inl e \<Rightarrow> (Inl e, n)
              | Inr v \<Rightarrow> (Inr (Some v), n\<lparr>lambda_agg := Some v\<rparr>))))"

definition update_received_msg_by_key ::
  "node \<Rightarrow> mailbox \<Rightarrow> string \<Rightarrow> pyval \<Rightarrow> exn + mailbox" where
  "update_received_msg_by_key n received_msg_dict key new_value =
     (if key \<notin> set (map fst received_msg_dict) then Inl ValueError_label_not_allowed
      else
        (case new_value of
           NdArray a \<Rightarrow>
             if shape a \<noteq> [cardinality n] then Inl ValueError_dimensions
             else Inr (AList.update key (Some a) received_msg_dict)
         | _ \<Rightarrow> Inl TypeError_not_ndarray))"

definition update_pi_msg_from_parent :: "node \<Rightarrow> string \<Rightarrow> pyval \<Rightarrow> (exn + unit) \<times> node" where
  "update_pi_msg_from_parent n parent new_value =
     (case update_received_msg_by_key n (pi_received_msgs n) parent new_value of
        Inl e \<Rightarrow> (Inl e, n)
      | Inr d \<Rightarrow> (Inr (), n\<lparr>pi_received_msgs := d\<rparr>))"

definition update_lambda_msg_from_child :: "node \<Rightarrow> string \<Rightarrow> pyval \<Rightarrow> (exn + unit) \<times> node" where
  "update_lambda_msg_from_child n child new_value =
     (case update_received_msg_by_key n (lambda_received_msgs n) child new_value of
        Inl e \<Rightarrow> (Inl e, n)
      | Inr d \<Rightarrow> (Inr (), n\<lparr>lambda_received_msgs := d\<rparr>))"

definition no_lambda_msg_text :: string where
  "no_lambda_msg_text =
     ''Can'' @ [CHR 0x27] @
     ''t compute pi message to child_{} without having received a lambda message from that child.''"

definition compute_pi_msg_to_child :: "node \<Rightarrow> string \<Rightarrow> (exn + ndarray) \<times> node" where
  "compute_pi_msg_to_child n child_k =
     (case map_of (lambda_received_msgs n) child_k of
        None \<Rightarrow> (Inl KeyError, n)
      | Some None \<Rightarrow> (Inl (ValueError_no_lambda_msg_from_child no_lambda_msg_text), n)
      | Some (Some lambda_msg_from_child) \<Rightarrow>
          (case belief n of
             Inl e \<Rightarrow> (Inl e, n)
           | Inr None \<Rightarrow> (Inl TypeError, n)
           | Inr (Some b) \<Rightarrow>
               (case np_divide b lambda_msg_from_child of
                  Inl e \<Rightarrow> (Inl e, n)
                | Inr q \<Rightarrow>
                    (case Node_normalize (nan_to_num q) of
                       Inl e \<Rightarrow> (Inl e, n)
                     | Inr v \<Rightarrow> (Inr v, n)))))"

definition Node_compute_lambda_msg_to_parent :: "node \<Rightarrow> string \<Rightarrow> (exn + ndarray) \<times> node" where
  "Node_compute_lambda_msg_to_parent n parent_k = (Inl NotImplementedError, n)"

definition is_fully_initialized :: "node \<Rightarrow> bool" where
  "is_fully_initialized n =
     (if list_ex (\<lambda>msg. msg = None) (return_msgs_received_for_msg_type n LAMBDA) then False
      else if list_ex (\<lambda>msg. msg = None) (return_msgs_received_for_msg_type n PI) then False
      else if pi_agg n = None \<or> lambda_agg n = None then False
      else True)"

section \<open>BernoulliOrNode\<close>

text \<open>
  The constructor fixes the cardinality at 2. The table \<open>BernoulliOrCPD(label_id, parents)\<close>
  is built by another module; its values are an argument here.
\<close>

definition BernoulliOrNode_init :: "string \<Rightarrow> string list \<Rightarrow> string list \<Rightarrow> ndarray \<Rightarrow> node" where
  "BernoulliOrNode_init l cs ps cpd = Node_init l cs ps 2 cpd"

text \<open>\<open>p_1 = 1 - p_0\<close> and \<open>np.array([p_0, p_1])\<close>: with a string for \<open>p_0\<close> the subtraction is a
  type error.\<close>

definition compute_pi_agg :: "node \<Rightarrow> (exn + ndarray) \<times> node" where
  "compute_pi_agg n =
     (if parents n = [] then (Inr (cpd_values n), n\<lparr>pi_agg := Some (cpd_values n)\<rparr>)
      else
        (case validate_and_return_msgs_received_for_msg_type n PI of
           Inl e \<Rightarrow> (Inl e, n)
         | Inr pi_msg_values \<Rightarrow>
             (case getitems0 pi_msg_values of
                Inl e \<Rightarrow> (Inl e, n)
              | Inr parents_p0 \<Rightarrow>
                  (case reduce_times parents_p0 of
                     Inl e \<Rightarrow> (Inl e, n)
                   | Inr (Str s) \<Rightarrow> (Inl TypeError, n)
                   | Inr (Num p_0) \<Rightarrow>
                       (let p_1 = num_sub (I 1) p_0; v = np_array [p_0, p_1]
                        in (Inr v, n\<lparr>pi_agg := Some v\<rparr>))))))"

text \<open>
  The candidate message \<open>[lambda_agg[1] + (lambda_agg[0] - lambda_agg[1]) * p0_product,
  lambda_agg[1]]\<close>. Python reads \<open>lambda_agg[1]\<close> first: an absent \<open>lambda_agg\<close> is a type
  error there and a short one an index error; on strings the subtraction or the
  multiplication is a type error.
\<close>

fun lambda_msg_of :: "ndarray option \<Rightarrow> scalar \<Rightarrow> exn + num list" where
  "lambda_msg_of None p0_product = Inl TypeError"
| "lambda_msg_of (Some (StrArray ss)) p0_product =
     (if length ss < 2 then Inl IndexError else Inl TypeError)"
| "lambda_msg_of (Some a) p0_product =
     (if length (nums a) < 2 then Inl IndexError
      else
        (case p0_product of
           Str s \<Rightarrow> Inl TypeError
         | Num p \<Rightarrow>
             (let lambda_0 = num_add (nums a ! 1) (num_mul (num_sub (nums a ! 0) (nums a ! 1)) p);
                  lambda_1 = nums a ! 1
              in Inr [lambda_0, lambda_1])))"

definition compute_lambda_msg_to_parent :: "node \<Rightarrow> string \<Rightarrow> (exn + ndarray) \<times> node" where
  "compute_lambda_msg_to_parent n parent_k =
     (if np_array_equal (lambda_agg n) (np_ones (cardinality n))
      then (Inr (np_ones (cardinality n)), n)
      else
        (case validate_and_return_msgs_received_for_msg_type n PI of
           Inl e \<Rightarrow> (Inl e, n)
         | Inr _ \<Rightarrow>
             (case getitems0 (map (\<lambda>(par_id, msg). the msg)
                                (filter (\<lambda>(par_id, msg). par_id \<noteq> parent_k) (pi_received_msgs n))) of
                Inl e \<Rightarrow> (Inl e, n)
              | Inr p0_excluding_k \<Rightarrow>
                  (case reduce_times_from_one p0_excluding_k of
                     Inl e \<Rightarrow> (Inl e, n)
                   | Inr p0_product \<Rightarrow>
                       (case lambda_msg_of (lambda_agg n) p0_product of
                          Inl e \<Rightarrow> (Inl e, n)
                        | Inr lambda_msg \<Rightarrow>
                            if \<not> list_ex num_truthy lambda_msg
                            then (Inl InvalidLambdaMsgToParent, n)
                            else
                              (case Node_normalize (np_array lambda_msg) of
                                 Inl e \<Rightarrow> (Inl e, n)
                               | Inr v \<Rightarrow> (Inr v, n)))))))"

section \<open>BeliefUpdateNodeModel\<close>

text \<open>The model owns the dict of its nodes, keyed by label, in insertion order.\<close>

type_synonym nodes_dict = "(string \<times> node) list"

definition get_edges_from_nodes :: "node list \<Rightarrow> (string \<times> string) list" where
  "get_edges_from_nodes nodes =
     remdups (concat (map (\<lambda>nd.
        if parents nd \<noteq> [] then zip (parents nd) (replicate (length (parents nd)) (label_id nd))
        else []) nodes))"

definition model_edges :: "nodes_dict \<Rightarrow> (string \<times> string) list" where
  "model_edges m = get_edges_from_nodes (map snd m)"

text \<open>
  Modelled from the spec: the directed graph of the base class \<open>BayesianModel\<close> of the module
  \<open>beliefs.models.base_models\<close>, with its queries \<open>get_roots\<close> and \<open>get_leaves\<close>. The
  constructor hands it the edges and the dict's keys as vertices; a root is a vertex with no
  incoming edge, a leaf a vertex with no outgoing edge.
\<close>

definition graph_nodes :: "nodes_dict \<Rightarrow> string list" where
  "graph_nodes m =
     rev (remdups (rev (concat (map (\<lambda>(p, c). [p, c]) (model_edges m)) @ map fst m)))"

definition get_roots :: "nodes_dict \<Rightarrow> string list" where
  "get_roots m = filter (\<lambda>v. \<not> list_ex (\<lambda>(p, c). c = v) (model_edges m)) (graph_nodes m)"

definition get_leaves :: "nodes_dict \<Rightarrow> string list" where
  "get_leaves m = filter (\<lambda>v. \<not> list_ex (\<lambda>(p, c). p = v) (model_edges m)) (graph_nodes m)"

text \<open>
  \<open>init_from_edges\<close>: one node for every label of the edge list, with the successors of the
  label as its children and the predecessors as its parents. The graph that answers the two
  queries is networkx's; each answer lists every neighbour once. The class of the nodes is
  an argument, and the dict is filled under the label each node reports.
\<close>

definition graph_successors :: "(string \<times> string) list \<Rightarrow> string \<Rightarrow> string list" where
  "graph_successors edges l = rev (remdups (rev (map snd (filter (\<lambda>(p, c). p = l) edges))))"

definition graph_predecessors :: "(string \<times> string) list \<Rightarrow> string \<Rightarrow> string list" where
  "graph_predecessors edges l = rev (remdups (rev (map fst (filter (\<lambda>(p, c). c = l) edges))))"

definition init_from_edges ::
  "(string \<times> string) list \<Rightarrow> (string \<Rightarrow> string list \<Rightarrow> string list \<Rightarrow> node) \<Rightarrow> nodes_dict" where
  "init_from_edges edges node_class =
     foldl (\<lambda>d nd. AList.update (label_id nd) nd d) []
       (map (\<lambda>label. node_class label (graph_successors edges label)
                                    (graph_predecessors edges label))
            (remdups (concat (map (\<lambda>(p, c). [p, c]) edges))))"

text \<open>The two loops of \<open>set_boundary_conditions\<close>; a label that is no key of the dict raises.\<close>

fun set_pi_agg_of_roots :: "string list \<Rightarrow> nodes_dict \<Rightarrow> (exn + unit) \<times> nodes_dict" where
  "set_pi_agg_of_roots [] d = (Inr (), d)"
| "set_pi_agg_of_roots (r # rs) d =
     (case map_of d r of
        None \<Rightarrow> (Inl KeyError, d)
      | Some nd \<Rightarrow>
          set_pi_agg_of_roots rs (AList.update r (nd\<lparr>pi_agg := Some (cpd_values nd)\<rparr>) d))"

fun set_lambda_agg_of_leaves :: "string list \<Rightarrow> nodes_dict \<Rightarrow> (exn + unit) \<times> nodes_dict" where
  "set_lambda_agg_of_leaves [] d = (Inr (), d)"
| "set_lambda_agg_of_leaves (leaf # ls) d =
     (case map_of d leaf of
        None \<Rightarrow> (Inl KeyError, d)
      | Some nd \<Rightarrow>
          set_lambda_agg_of_leaves ls
            (AList.update leaf (nd\<lparr>lambda_agg := Some (np_ones (cardinality nd))\<rparr>) d))"

definition set_boundary_conditions :: "nodes_dict \<Rightarrow> (exn + unit) \<times> nodes_dict" where
  "set_boundary_conditions m =
     (case set_pi_agg_of_roots (get_roots m) m of
        (Inl e, d) \<Rightarrow> (Inl e, d)
      | (Inr _, d) \<Rightarrow> set_lambda_agg_of_leaves (get_leaves m) d)"

definition all_nodes_are_fully_initialized :: "nodes_dict \<Rightarrow> bool" where
  "all_nodes_are_fully_initialized m = list_all (\<lambda>(k, nd). is_fully_initialized nd) m"

section \<open>Invariants and reference notions\<close>

text \<open>
  What the constructor establishes and every deposit keeps: the keys of the two mailboxes are
  the declared parents and children, and every stored message has the shape
  \<open>(cardinality,)\<close>. A deposit does not look at the kind of the elements, so that the
  messages are numeric arrays is a condition of its own.
\<close>

definition node_inv :: "node \<Rightarrow> bool" where
  "node_inv n =
     (distinct (map fst (pi_received_msgs n)) \<and>
      distinct (map fst (lambda_received_msgs n)) \<and>
      set (map fst (pi_received_msgs n)) = set (parents n) \<and>
      set (map fst (lambda_received_msgs n)) = set (children n) \<and>
      list_all (\<lambda>(k, msg). case msg of None \<Rightarrow> True | Some a \<Rightarrow> shape a = [cardinality n])
        (pi_received_msgs n @ lambda_received_msgs n))"

definition numeric_msgs :: "mailbox \<Rightarrow> bool" where
  "numeric_msgs mb = list_all (\<lambda>(k, msg). case msg of None \<Rightarrow> True | Some a \<Rightarrow> is_numeric a) mb"

definition int_msgs :: "mailbox \<Rightarrow> bool" where
  "int_msgs mb = list_all (\<lambda>(k, msg). case msg of None \<Rightarrow> True | Some a \<Rightarrow> is_int_array a) mb"

text \<open>The numbers a mailbox of numeric messages holds at one index, in the order of the
  mailbox, and the product of a list of numbers taken from left to right.\<close>

definition components :: "mailbox \<Rightarrow> nat \<Rightarrow> num list" where
  "components mb i = map (\<lambda>(k, msg). nums (the msg) ! i) mb"

definition product_from_left :: "num list \<Rightarrow> num" where
  "product_from_left xs = foldl num_mul (hd xs) (tl xs)"

text \<open>The elementwise product of the messages of a mailbox: an int64 array when all messages
  are, a float64 array otherwise.\<close>

definition elementwise_product :: "nat \<Rightarrow> mailbox \<Rightarrow> ndarray" where
  "elementwise_product k mb =
     (if int_msgs mb
      then IntArray (map (\<lambda>i. the_I (product_from_left (components mb i))) [0..<k])
      else FloatArray (map (\<lambda>i. to_float (product_from_left (components mb i))) [0..<k]))"

text \<open>The two quantities of the lambda message to a parent, as the formulas give them: the
  product of the first components of the pi messages of all parents but one, begun with 1,
  and the message before normalisation.\<close>

definition p0_product_excluding :: "mailbox \<Rightarrow> string \<Rightarrow> num" where
  "p0_product_excluding mb parent_k =
     foldl num_mul (I 1) (components (filter (\<lambda>(p, msg). p \<noteq> parent_k) mb) 0)"

definition lambda_candidate :: "num \<Rightarrow> num \<Rightarrow> num \<Rightarrow> num list" where
  "lambda_candidate l0 l1 p = [num_add l1 (num_mul (num_sub l0 l1) p), l1]"



text \<open>
  A model whose declarations agree: the keys of the dict are distinct and are the labels of
  the nodes, every declared parent and child is a key, and a node lists a child exactly when
  that child lists it as a parent. \<open>init_from_edges\<close> builds such models.
\<close>

definition model_wf :: "nodes_dict \<Rightarrow> bool" where
  "model_wf m =
     (distinct (map fst m) \<and>
      list_all (\<lambda>(k, nd). label_id nd = k \<and>
                  set (parents nd) \<subseteq> set (map fst m) \<and>
                  set (children nd) \<subseteq> set (map fst m) \<and>
                  list_all (\<lambda>(k', nd'). (k' \<in> set (children nd)) = (k \<in> set (parents nd'))) m) m)"

section \<open>Example nodes and models\<close>

text \<open>The binary64 numbers nearest to 0.4, 0.6, 0.2 and 0.8.\<close>

definition dbl_0_4 :: real where "dbl_0_4 = 3602879701896397 / 2 ^ 53"
definition dbl_0_6 :: real where "dbl_0_6 = 5404319552844595 / 2 ^ 53"
definition dbl_0_2 :: real where "dbl_0_2 = 3602879701896397 / 2 ^ 54"
definition dbl_0_8 :: real where "dbl_0_8 = 3602879701896397 / 2 ^ 52"

text \<open>A node with two parents, one of which has sent its message, and one child; the same
  node with both pi messages in; the latter with a \<open>lambda_agg\<close> of zeros.\<close>

definition example_node :: node where
  "example_node =
     (BernoulliOrNode_init ''Y'' [''Z''] [''A'', ''B''] (FloatArray [Fin (1/2), Fin (1/2)]))
       \<lparr>pi_received_msgs :=
          [(''A'', Some (FloatArray [Fin dbl_0_4, Fin dbl_0_6])), (''B'', None)]\<rparr>"

definition two_parent_node :: node where
  "two_parent_node = example_node\<lparr>pi_received_msgs :=
      [(''A'', Some (FloatArray [Fin dbl_0_4, Fin dbl_0_6])),
       (''B'', Some (FloatArray [Fin (1/2), Fin (1/2)]))]\<rparr>"

definition contradicted_node :: node where
  "contradicted_node = two_parent_node\<lparr>lambda_agg := Some (FloatArray [Fin 0, Fin 0])\<rparr>"

text \<open>The last two with evidence against state 0 from below.\<close>

definition evidence_node :: node where
  "evidence_node = two_parent_node\<lparr>lambda_agg := Some (FloatArray [Fin 0, Fin 1])\<rparr>"

definition waiting_evidence_node :: node where
  "waiting_evidence_node = example_node\<lparr>lambda_agg := Some (FloatArray [Fin 0, Fin 1])\<rparr>"

text \<open>The node with two very small numbers: the evidence \<open>[2^-600, 0]\<close> from below and the
  pi message \<open>[2^-600, 1]\<close> of the parent \<open>B\<close>.\<close>

definition underflow_node :: node where
  "underflow_node =
     two_parent_node\<lparr>pi_received_msgs :=
         [(''A'', Some (FloatArray [Fin (1/2), Fin (1/2)])),
          (''B'', Some (FloatArray [Fin (1 / 2 ^ 600), Fin 1]))],
       lambda_agg := Some (FloatArray [Fin (1 / 2 ^ 600), Fin 0])\<rparr>"

text \<open>A node whose three children have all sent their lambda messages, and a leaf after
  the boundary conditions.\<close>

definition lambda_ready_node :: node where
  "lambda_ready_node =
     (Node_init ''X'' [''U'', ''V'', ''W''] [] 2 (FloatArray [Fin (1/2), Fin (1/2)]))
       \<lparr>lambda_received_msgs :=
          [(''U'', Some (FloatArray [Fin 2, Fin 3])), (''V'', Some (FloatArray [Fin 5, Fin 7])),
           (''W'', Some (FloatArray [Fin 1, Fin 0]))]\<rparr>"

definition leaf_node :: node where
  "leaf_node =
     (Node_init ''L'' [] [''X''] 2 (FloatArray [Fin (1/2), Fin (1/2)]))
       \<lparr>lambda_agg := Some (FloatArray [Fin 1, Fin 1])\<rparr>"

text \<open>A node whose children report two very large numbers and a very small one, and the same
  node with its children in another order.\<close>

definition overflow_node :: node where
  "overflow_node =
     (Node_init ''X'' [''U'', ''V'', ''W''] [] 2 (FloatArray [Fin (1/2), Fin (1/2)]))
       \<lparr>lambda_received_msgs :=
          [(''U'', Some (FloatArray [Fin (2 ^ 600), Fin 1])),
           (''V'', Some (FloatArray [Fin (2 ^ 600), Fin 1])),
           (''W'', Some (FloatArray [Fin (1 / 2 ^ 600), Fin 1]))]\<rparr>"

definition overflow_node_permuted :: node where
  "overflow_node_permuted =
     (Node_init ''X'' [''W'', ''U'', ''V''] [] 2 (FloatArray [Fin (1/2), Fin (1/2)]))
       \<lparr>lambda_received_msgs :=
          [(''W'', Some (FloatArray [Fin (1 / 2 ^ 600), Fin 1])),
           (''U'', Some (FloatArray [Fin (2 ^ 600), Fin 1])),
           (''V'', Some (FloatArray [Fin (2 ^ 600), Fin 1]))]\<rparr>"

text \<open>A node whose two children report in int64: \<open>[2^32, 1]\<close> each.\<close>

definition int_ready_node :: node where
  "int_ready_node =
     (Node_init ''X'' [''U'', ''V''] [] 2 (FloatArray [Fin (1/2), Fin (1/2)]))
       \<lparr>lambda_received_msgs :=
          [(''U'', Some (IntArray [2 ^ 32, 1])), (''V'', Some (IntArray [2 ^ 32, 1]))]\<rparr>"

text \<open>A root with the prior \<open>[0.5, 0.5]\<close> and one child.\<close>

definition root_node :: node where
  "root_node = BernoulliOrNode_init ''X'' [''Y''] [] (FloatArray [Fin (1/2), Fin (1/2)])"

text \<open>A node that has heard from its parent that the parent is in state 0 for certain and
  from its child that state 0 is impossible, and has computed both aggregates.\<close>

definition certain_contradiction_node :: node where
  "certain_contradiction_node =
     snd (compute_lambda_agg
       (snd (update_lambda_msg_from_child
         (snd (compute_pi_agg
           (snd (update_pi_msg_from_parent
             (BernoulliOrNode_init ''Y'' [''Z''] [''A''] (FloatArray [Fin (1/2), Fin (1/2)]))
             ''A'' (NdArray (FloatArray [Fin 1, Fin 0]))))))
         ''Z'' (NdArray (FloatArray [Fin 0, Fin 1])))))"


text \<open>The chain of a root \<open>X\<close> and its child \<open>Y\<close>; a dict in which \<open>A\<close> declares the child \<open>B\<close>
  and \<open>B\<close> declares no parent; and a dict whose only node declares a parent that is no
  key.\<close>

definition chain_model :: nodes_dict where
  "chain_model =
     [(''X'', BernoulliOrNode_init ''X'' [''Y''] [] (FloatArray [Fin (1/2), Fin (1/2)])),
      (''Y'', BernoulliOrNode_init ''Y'' [] [''X''] (FloatArray [Fin (1/2), Fin (1/2)]))]"

definition one_sided_model :: nodes_dict where
  "one_sided_model =
     [(''A'', BernoulliOrNode_init ''A'' [''B''] [] (FloatArray [Fin (1/2), Fin (1/2)])),
      (''B'', BernoulliOrNode_init ''B'' [] [] (FloatArray [Fin (1/2), Fin (1/2)]))]"

definition dangling_model :: nodes_dict where
  "dangling_model =
     [(''B'', BernoulliOrNode_init ''B'' [] [''A''] (FloatArray [Fin (1/2), Fin (1/2)]))]"

section \<open>Properties of the numeric layer\<close>

lemma find_upto_Some:
  "i \<le> k \<Longrightarrow> k \<le> j \<Longrightarrow> P k \<Longrightarrow> (\<forall>e. i \<le> e \<and> e < k \<longrightarrow> \<not> P e) \<Longrightarrow> find P [i..j] = Some k"
proof (induction "nat (k - i)" arbitrary: i)
  case 0
  then have "i = k" by simp
  with 0 show ?case by (simp add: upto_rec1)
next
  case (Suc n)
  then have lt: "i < k" by linarith
  have "\<not> P i" using Suc.prems(4) lt by simp
  moreover have "find P [i + 1..j] = Some k"
    using Suc.hyps(1) [of "i + 1"] Suc.hyps(2) Suc.prems lt by auto
  ultimately show ?case using lt Suc.prems(2) by (simp add: upto_rec1)
qed

lemma binade_eq:
  assumes "- 1022 \<le> k" and "k \<le> 1023" and "2 powi k \<le> x" and "x < 2 powi (k + 1)"
  shows "binade x = k"
proof -
  have "\<not> x < 2 powi (e + 1)" if "e < k" for e
  proof -
    have "(2::real) powi (e + 1) \<le> 2 powi k" using that by (intro power_int_increasing) auto
    with assms(3) show ?thesis by simp
  qed
  then have "find (\<lambda>e. x < 2 powi (e + 1)) [-1022..1023] = Some k"
    using assms by (intro find_upto_Some) auto
  then show ?thesis by (simp only: binade_def option.case)
qed

lemma binade_subnormal: "x < 2 powi (- 1022) \<Longrightarrow> binade x = - 1022"
proof -
  assume "x < 2 powi (- 1022)"
  then have "x < 2 powi (- 1022 + 1)"
    using power_int_increasing [of "- 1022" "- 1022 + 1" "2::real"] by simp
  then have "find (\<lambda>e. x < 2 powi (e + 1)) [-1022..1023] = Some (- 1022)"
    by (intro find_upto_Some) auto
  then show ?thesis by (simp only: binade_def option.case)
qed

lemma binade_overflow: "2 ^ 1024 \<le> x \<Longrightarrow> binade x = 1024"
proof -
  assume h: "2 ^ 1024 \<le> x"
  have "\<not> x < 2 powi (e + 1)" if "e \<le> 1023" for e
  proof -
    have "(2::real) powi (e + 1) \<le> 2 powi 1024" using that by (intro power_int_increasing) auto
    with h show ?thesis by simp
  qed
  then have "\<nexists>e. e \<in> set [-1022..1023] \<and> x < 2 powi (e + 1)"
    unfolding set_upto by auto
  then have "find (\<lambda>e. x < 2 powi (e + 1)) [-1022..1023] = None"
    unfolding find_None_iff .
  then show ?thesis by (simp only: binade_def option.case)
qed

lemma round_mag_normal:
  "- 1022 \<le> k \<Longrightarrow> k \<le> 1023 \<Longrightarrow> 2 powi k \<le> x \<Longrightarrow> x < 2 powi (k + 1) \<Longrightarrow>
   round_mag x = of_int (round_half_even (x / 2 powi (k - 52))) * 2 powi (k - 52)"
  by (simp only: round_mag_def binade_eq Let_def)

lemma round_mag_subnormal:
  "x < 2 powi (- 1022) \<Longrightarrow>
   round_mag x = of_int (round_half_even (x / 2 powi (- 1074))) * 2 powi (- 1074)"
proof -
  assume "x < 2 powi (- 1022)"
  then have "binade x = - 1022" by (rule binade_subnormal)
  moreover have "(- 1022 - 52 :: int) = - 1074" by simp
  ultimately show ?thesis by (simp only: round_mag_def Let_def)
qed

lemma round_half_even_ge_floor: "\<lfloor>y\<rfloor> \<le> round_half_even y"
  by (simp add: round_half_even_def Let_def)

lemma round_mag_overflow: "2 ^ 1024 \<le> x \<Longrightarrow> 2 ^ 1024 \<le> round_mag x"
proof -
  assume h: "2 ^ 1024 \<le> x"
  have u: "round_mag x = of_int (round_half_even (x / 2 ^ 972)) * 2 ^ 972"
    using binade_overflow [OF h] by (simp add: round_mag_def)
  have "(2::real) ^ 52 \<le> x / 2 ^ 972"
  proof -
    have "(2::real) ^ 52 * 2 ^ 972 = 2 ^ 1024" by (simp flip: power_add)
    then show ?thesis using h by (simp add: pos_le_divide_eq)
  qed
  then have "(2::int) ^ 52 \<le> \<lfloor>x / 2 ^ 972\<rfloor>" by (simp add: le_floor_iff)
  then have "(2::int) ^ 52 \<le> round_half_even (x / 2 ^ 972)"
    using round_half_even_ge_floor [of "x / 2 ^ 972"] by linarith
  then have "(2::real) ^ 52 \<le> of_int (round_half_even (x / 2 ^ 972))"
    by (metis of_int_le_iff of_int_numeral of_int_power)
  then have "(2::real) ^ 52 * 2 ^ 972 \<le> of_int (round_half_even (x / 2 ^ 972)) * 2 ^ 972"
    by (intro mult_right_mono) auto
  moreover have "(2::real) ^ 52 * 2 ^ 972 = 2 ^ 1024" by (simp flip: power_add)
  ultimately show ?thesis using u by simp
qed

lemma mk_float64_overflow: "2 ^ 1024 \<le> x \<Longrightarrow> mk_float64 neg x = inf_of neg"
  using round_mag_overflow [of x] by (simp add: mk_float64_def)

lemma round_mag_0: "round_mag 0 = 0"
  using round_mag_subnormal [of 0] by (simp add: round_half_even_def)

lemma mk_float64_0: "mk_float64 neg 0 = zero_of neg"
  by (simp add: mk_float64_def round_mag_0)

text \<open>The roundings the examples need.\<close>

lemma round_mag_values:
  "round_mag 1 = 1" "round_mag (1/2) = 1/2" "round_mag (3/2) = 3/2"
  "round_mag 10 = 10" "round_mag 21 = 21"
  "round_mag (1/3) = 6004799503160661 / 2 ^ 54"
  "round_mag (2/3) = 6004799503160661 / 2 ^ 53"
  "round_mag (2 ^ 600) = 2 ^ 600"
proof -
  show "round_mag 1 = 1"
    using round_mag_normal [of 0 1] by (simp add: round_half_even_def)
  show "round_mag (1/2) = 1/2"
    using round_mag_normal [of "- 1" "1/2"] by (simp add: round_half_even_def)
  show "round_mag (3/2) = 3/2"
    using round_mag_normal [of 0 "3/2"] by (simp add: round_half_even_def)
  show "round_mag 10 = 10"
    using round_mag_normal [of 3 10] by (simp add: round_half_even_def)
  show "round_mag 21 = 21"
    using round_mag_normal [of 4 21] by (simp add: round_half_even_def)
  show "round_mag (1/3) = 6004799503160661 / 2 ^ 54"
    using round_mag_normal [of "- 2" "1/3"] by (simp add: round_half_even_def)
  show "round_mag (2/3) = 6004799503160661 / 2 ^ 53"
    using round_mag_normal [of "- 1" "2/3"] by (simp add: round_half_even_def)
  show "round_mag (2 ^ 600) = 2 ^ 600"
    using round_mag_normal [of 600 "2 ^ 600"] by (simp add: round_half_even_def)
qed


lemma round_mag_scenario_B:
  "round_mag (dbl_0_4 * (1/2)) = dbl_0_2" "round_mag (1 - dbl_0_2) = dbl_0_8"
proof -
  show "round_mag (dbl_0_4 * (1/2)) = dbl_0_2"
    unfolding dbl_0_4_def dbl_0_2_def
    using round_mag_normal [of "- 3" "3602879701896397 / 2 ^ 53 * (1/2)"]
    by (simp add: round_half_even_def)
  show "round_mag (1 - dbl_0_2) = dbl_0_8"
    unfolding dbl_0_8_def dbl_0_2_def
    using round_mag_normal [of "- 1" "1 - 3602879701896397 / 2 ^ 54"]
    by (simp add: round_half_even_def)
qed



lemma dbl_pos: "0 < dbl_0_4" "0 < dbl_0_6" "0 < dbl_0_2" "0 < dbl_0_8" "dbl_0_2 < 1"
  by (simp_all add: dbl_0_4_def dbl_0_6_def dbl_0_2_def dbl_0_8_def)

lemma dbl_0_8_less: "dbl_0_8 < 2 ^ 1024" "dbl_0_2 < 2 ^ 1024"
proof -
  have "(1::real) \<le> 2 ^ 1024" by (rule one_le_power) simp
  moreover have "dbl_0_8 < 1" "dbl_0_2 < 1" by (simp_all add: dbl_0_8_def dbl_0_2_def)
  ultimately show "dbl_0_8 < 2 ^ 1024" "dbl_0_2 < 2 ^ 1024" by linarith+
qed

lemmas arith_defs =
  np_mul_def np_add_def np_sub_def np_div_def mk_float64_def zero_of_def inf_of_def Let_def
  round_mag_0 round_mag_values

lemma float64_products:
  "np_mul (Fin 1) (Fin (1/2)) = Fin (1/2)"
  "np_mul (Fin (1/2)) (Fin 1) = Fin (1/2)"
  "np_mul (Fin (- 1)) (Fin (1/2)) = Fin (- (1/2))"
  "np_mul (Fin 0) (Fin (1/2)) = Fin 0"
  "np_mul (Fin 1) (Fin 0) = Fin 0"
  "np_mul (Fin 0) (Fin 1) = Fin 0"
  "np_mul (Fin 1) (Fin 1) = Fin 1"
  "np_mul (Fin 2) (Fin 5) = Fin 10"
  "np_mul (Fin 10) (Fin 1) = Fin 10"
  "np_mul (Fin 3) (Fin 7) = Fin 21"
  "np_mul (Fin 21) (Fin 0) = Fin 0"
  by (simp_all add: arith_defs)

lemma float64_sums:
  "np_add (Fin 0) (Fin 0) = Fin 0"
  "np_add (Fin 0) (Fin (1/2)) = Fin (1/2)"
  "np_add (Fin (1/2)) (Fin (1/2)) = Fin 1"
  "np_add (Fin (1/2)) (Fin 1) = Fin (3/2)"
  "np_add (Fin 1) (Fin (- (1/2))) = Fin (1/2)"
  "np_sub (Fin 0) (Fin 1) = Fin (- 1)"
  "np_sub (Fin 0) (Fin 0) = Fin 0"
  "np_sub (Fin 1) (Fin 1) = Fin 0"
  by (simp_all add: arith_defs)

lemma float64_quotients:
  "np_div (Fin 0) (Fin 0) = NaN"
  "np_div (Fin (1/2)) (Fin 0) = PInf"
  "np_div (Fin (1/2)) (Fin 1) = Fin (1/2)"
  "np_div (Fin 0) (Fin (1/2)) = Fin 0"
  "np_div (Fin (1/2)) (Fin (1/2)) = Fin 1"
  "np_div (Fin (1/2)) (Fin (3/2)) = Fin (6004799503160661 / 2 ^ 54)"
  "np_div (Fin 1) (Fin (3/2)) = Fin (6004799503160661 / 2 ^ 53)"
  by (simp_all add: arith_defs)

lemma float64_scenario_B:
  "np_mul (Fin dbl_0_4) (Fin (1/2)) = Fin dbl_0_2"
  "np_sub (Fin 1) (Fin dbl_0_2) = Fin dbl_0_8"
proof -
  have "mk_float64 False (dbl_0_4 * (1/2)) = Fin dbl_0_2"
    using dbl_pos dbl_0_8_less
    by (simp only: mk_float64_def Let_def round_mag_scenario_B) (simp add: zero_of_def)
  then show "np_mul (Fin dbl_0_4) (Fin (1/2)) = Fin dbl_0_2"
    using dbl_pos by (simp add: np_mul_def)
  have "mk_float64 False (1 - dbl_0_2) = Fin dbl_0_8"
    using dbl_pos dbl_0_8_less
    by (simp only: mk_float64_def Let_def round_mag_scenario_B) (simp add: zero_of_def)
  then show "np_sub (Fin 1) (Fin dbl_0_2) = Fin dbl_0_8"
    using dbl_pos by (simp add: np_sub_def np_add_def)
qed

lemma float64_overflow:
  "np_mul (Fin (2 ^ 600)) (Fin (2 ^ 600)) = PInf"
  "np_mul PInf (Fin (1 / 2 ^ 600)) = PInf"
  "np_mul (Fin (1 / 2 ^ 600)) (Fin (2 ^ 600)) = Fin 1"
  "np_mul (Fin 1) (Fin (2 ^ 600)) = Fin (2 ^ 600)"
proof -
  have "(2::real) ^ 1024 \<le> 2 ^ 600 * 2 ^ 600"
    by (simp flip: power_add)
  then have "mk_float64 False (2 ^ 600 * 2 ^ 600) = PInf"
    using mk_float64_overflow [of "2 ^ 600 * 2 ^ 600" False] by (simp only: inf_of_def if_False)
  then show "np_mul (Fin (2 ^ 600)) (Fin (2 ^ 600)) = PInf"
    by (simp add: np_mul_def del: power_numeral)
  show "np_mul PInf (Fin (1 / 2 ^ 600)) = PInf"
    by (simp add: np_mul_def inf_of_def)
  have lt: "(2::real) ^ 600 < 2 ^ 1024" by (rule power_strict_increasing) simp_all
  have "mk_float64 False 1 = Fin 1" by (simp add: arith_defs)
  then show "np_mul (Fin (1 / 2 ^ 600)) (Fin (2 ^ 600)) = Fin 1"
    by (simp add: np_mul_def)
  have "mk_float64 False (2 ^ 600) = Fin (2 ^ 600)"
    using lt by (simp only: mk_float64_def Let_def round_mag_values) (simp add: zero_of_def)
  then show "np_mul (Fin 1) (Fin (2 ^ 600)) = Fin (2 ^ 600)"
    by (simp add: np_mul_def)
qed


declare pairwise_sum.simps [simp del]

lemma np_sum_short: "length xs < 8 \<Longrightarrow> np_sum xs = foldl np_add (Fin 0) xs"
  by (simp add: np_sum_def pairwise_sum.simps [of xs])

text \<open>The decimal literals of the examples round to the binary64 numbers named above.\<close>

lemma round_mag_decimal:
  "round_mag (2/5) = dbl_0_4" "round_mag (3/5) = dbl_0_6"
  "round_mag (1/5) = dbl_0_2" "round_mag (4/5) = dbl_0_8"
proof -
  show "round_mag (2/5) = dbl_0_4"
    unfolding dbl_0_4_def using round_mag_normal [of "- 2" "2/5"] by (simp add: round_half_even_def)
  show "round_mag (3/5) = dbl_0_6"
    unfolding dbl_0_6_def using round_mag_normal [of "- 1" "3/5"] by (simp add: round_half_even_def)
  show "round_mag (1/5) = dbl_0_2"
    unfolding dbl_0_2_def using round_mag_normal [of "- 3" "1/5"] by (simp add: round_half_even_def)
  show "round_mag (4/5) = dbl_0_8"
    unfolding dbl_0_8_def using round_mag_normal [of "- 1" "4/5"] by (simp add: round_half_even_def)
qed

lemma round_mag_small:
  "round_mag (1 / 2 ^ 600) = 1 / 2 ^ 600" "round_mag (1 / 2 ^ 600 * (1 / 2 ^ 600)) = 0"
proof -
  have e: "(1::real) / 2 ^ 600 = 2 powi (- 600)"
    by (simp add: power_int_minus field_simps)
  have "round_mag (2 powi (- 600)) = of_int (round_half_even (2 powi (- 600) / 2 powi (- 652))) * 2 powi (- 652)"
    using round_mag_normal [of "- 600" "2 powi (- 600)"]
    by (simp add: power_int_strict_increasing)
  moreover have "(2::real) powi (- 600) / 2 powi (- 652) = 2 ^ 52"
    by (simp flip: power_int_diff)
  moreover have "(2::real) ^ 52 * 2 powi (- 652) = 2 powi (- 600)"
    using power_int_add [of "2::real" 52 "- 652"] by simp
  ultimately show "round_mag (1 / 2 ^ 600) = 1 / 2 ^ 600"
    unfolding e by (simp add: round_half_even_def)
  have s: "(1::real) / 2 ^ 600 * (1 / 2 ^ 600) = 2 powi (- 1200)"
    unfolding e by (simp flip: power_int_add)
  have lt: "(2::real) powi (- 1200) < 2 powi (- 1022)"
    by (rule power_int_strict_increasing) simp_all
  have q: "(2::real) powi (- 1200) / 2 powi (- 1074) = 2 powi (- 126)"
    by (simp flip: power_int_diff)
  have "(2::real) powi (- 126) < 1/2"
    using power_int_strict_increasing [of "- 126" "- 1" "2::real"] by simp
  moreover have "(0::real) < 2 powi (- 126)" by simp
  ultimately have "round_half_even (2 powi (- 126)) = 0"
    by (simp add: round_half_even_def Let_def floor_eq_iff)
  then show "round_mag (1 / 2 ^ 600 * (1 / 2 ^ 600)) = 0"
    unfolding s using round_mag_subnormal [OF lt] unfolding q by simp
qed

lemma float64_underflow:
  "np_mul (Fin 1) (Fin (1 / 2 ^ 600)) = Fin (1 / 2 ^ 600)"
  "np_sub (Fin (1 / 2 ^ 600)) (Fin 0) = Fin (1 / 2 ^ 600)"
  "np_mul (Fin (1 / 2 ^ 600)) (Fin (1 / 2 ^ 600)) = Fin 0"
proof -
  have p: "(0::real) < 1 / 2 ^ 600" by simp
  have "(1::real) / 2 ^ 600 \<le> 1" by (simp add: divide_le_eq)
  moreover have "(1::real) < 2 ^ 1024" by (rule one_less_power) simp_all
  ultimately have lt: "(1::real) / 2 ^ 600 < 2 ^ 1024" by linarith
  have m: "mk_float64 False (1 / 2 ^ 600) = Fin (1 / 2 ^ 600)"
    using p lt by (simp only: mk_float64_def Let_def round_mag_small) (simp add: zero_of_def)
  have z: "mk_float64 False (1 / 2 ^ 600 * (1 / 2 ^ 600)) = Fin 0"
    by (simp only: mk_float64_def Let_def round_mag_small) (simp add: zero_of_def)
  show "np_mul (Fin 1) (Fin (1 / 2 ^ 600)) = Fin (1 / 2 ^ 600)"
    using m by (simp add: np_mul_def del: power_numeral)
  show "np_sub (Fin (1 / 2 ^ 600)) (Fin 0) = Fin (1 / 2 ^ 600)"
    using m p by (simp add: np_sub_def np_add_def del: power_numeral)
  show "np_mul (Fin (1 / 2 ^ 600)) (Fin (1 / 2 ^ 600)) = Fin 0"
    using z by (simp add: np_mul_def del: power_numeral)
qed

lemma np_eq_one: "np_eq a (Fin 1) = (a = Fin 1)"
  by (cases a) (auto simp: np_eq_def)


lemma np_array_equal_pair:
  "np_array_equal (Some (FloatArray [l0, l1])) (np_ones 2) = (l0 = Fin 1 \<and> l1 = Fin 1)"
  by (auto simp: np_ones_def numeral_2_eq_2 np_eq_one)

lemma float_of_int64_simps: "float_of_int64 0 = Fin 0" "float_of_int64 1 = Fin 1"
  by (simp_all add: float_of_int64_def arith_defs)

lemmas eval_defs =
  Node_init_def BernoulliOrNode_init_def init_received_msgs_def
  validate_and_return_msgs_received_for_msg_type_def return_msgs_received_for_msg_type_def
  np_binop_def float_result_def int_result_def as_floats_def np_array_def
  reduce_times_from_one_def np_ones_def truthy_def float_of_int64_simps Let_def

lemma example_node_simps:
  "example_node =
     \<lparr>label_id = ''Y'', children = [''Z''], parents = [''A'', ''B''], cardinality = 2,
      cpd_values = FloatArray [Fin (1/2), Fin (1/2)], pi_agg = None, lambda_agg = None,
      pi_received_msgs =
        [(''A'', Some (FloatArray [Fin dbl_0_4, Fin dbl_0_6])), (''B'', None)],
      lambda_received_msgs = [(''Z'', None)]\<rparr>"
  by (simp add: example_node_def eval_defs)

lemma two_parent_node_simps:
  "two_parent_node =
     \<lparr>label_id = ''Y'', children = [''Z''], parents = [''A'', ''B''], cardinality = 2,
      cpd_values = FloatArray [Fin (1/2), Fin (1/2)], pi_agg = None, lambda_agg = None,
      pi_received_msgs =
        [(''A'', Some (FloatArray [Fin dbl_0_4, Fin dbl_0_6])),
         (''B'', Some (FloatArray [Fin (1/2), Fin (1/2)]))],
      lambda_received_msgs = [(''Z'', None)]\<rparr>"
  by (simp add: two_parent_node_def example_node_simps)

lemma node_inv_example_node: "node_inv example_node"
  by (simp add: example_node_simps node_inv_def)

lemma node_inv_two_parent_node: "node_inv two_parent_node"
  by (simp add: two_parent_node_simps node_inv_def)

lemma node_inv_aggs:
  "node_inv (n\<lparr>pi_agg := a\<rparr>) = node_inv n" "node_inv (n\<lparr>lambda_agg := b\<rparr>) = node_inv n"
  by (auto simp: node_inv_def list_all_iff split: option.splits)

lemma node_inv_contradicted_node: "node_inv contradicted_node"
  by (simp add: contradicted_node_def node_inv_aggs node_inv_two_parent_node)

lemma node_inv_evidence_node: "node_inv evidence_node"
  by (simp add: evidence_node_def node_inv_aggs node_inv_two_parent_node)

lemma node_inv_waiting_evidence_node: "node_inv waiting_evidence_node"
  by (simp add: waiting_evidence_node_def node_inv_aggs node_inv_example_node)

section \<open>Properties of a node\<close>



text \<open>
  C9. An operation of a node that fails leaves the node as it was: a rejected deposit of a
  pi or lambda message, \<open>compute_lambda_agg\<close> and \<open>compute_pi_agg\<close> when a message is
  missing, \<open>compute_lambda_msg_to_parent\<close> when the message it computes is all zero, and the
  same for every other exception these operations raise.
\<close>

theorem failed_operation_keeps_state:
  "(fst (update_pi_msg_from_parent n k v) = Inl e \<longrightarrow> snd (update_pi_msg_from_parent n k v) = n) \<and>
   (fst (update_lambda_msg_from_child n k v) = Inl e \<longrightarrow>
      snd (update_lambda_msg_from_child n k v) = n) \<and>
   (fst (compute_lambda_agg n) = Inl e \<longrightarrow> snd (compute_lambda_agg n) = n) \<and>
   (fst (compute_pi_agg n) = Inl e \<longrightarrow> snd (compute_pi_agg n) = n) \<and>
   (fst (compute_lambda_msg_to_parent n k) = Inl e \<longrightarrow>
      snd (compute_lambda_msg_to_parent n k) = n)"
  by (auto simp: update_pi_msg_from_parent_def update_lambda_msg_from_child_def
                 compute_lambda_agg_def compute_pi_agg_def compute_lambda_msg_to_parent_def Let_def
           split: sum.splits if_splits scalar.splits)

lemma contradicted_candidate:
  "lambda_msg_of (lambda_agg contradicted_node) (Num (F (Fin (1/2)))) = Inr [F (Fin 0), F (Fin 0)]"
  by (simp add: contradicted_node_def float64_products float64_sums)

theorem failed_operation_keeps_state_witness:
  "fst (update_pi_msg_from_parent example_node ''C'' (NdArray (FloatArray [Fin 1, Fin 1])))
     = Inl ValueError_label_not_allowed \<and>
   snd (update_pi_msg_from_parent example_node ''C'' (NdArray (FloatArray [Fin 1, Fin 1])))
     = example_node \<and>
   fst (update_lambda_msg_from_child example_node ''Z'' (NdArray (FloatArray [Fin 1, Fin 1, Fin 1])))
     = Inl ValueError_dimensions \<and>
   snd (update_lambda_msg_from_child example_node ''Z'' (NdArray (FloatArray [Fin 1, Fin 1, Fin 1])))
     = example_node \<and>
   fst (compute_lambda_agg example_node) = Inl (ValueError_missing_msg ''lambda'') \<and>
   snd (compute_lambda_agg example_node) = example_node \<and>
   fst (compute_pi_agg example_node) = Inl (ValueError_missing_msg ''pi'') \<and>
   snd (compute_pi_agg example_node) = example_node \<and>
   fst (compute_lambda_msg_to_parent contradicted_node ''A'') = Inl InvalidLambdaMsgToParent \<and>
   snd (compute_lambda_msg_to_parent contradicted_node ''A'') = contradicted_node"
proof -
  have h1: "fst (update_pi_msg_from_parent example_node ''C'' (NdArray (FloatArray [Fin 1, Fin 1])))
      = Inl ValueError_label_not_allowed"
    by (simp add: example_node_simps update_pi_msg_from_parent_def update_received_msg_by_key_def)
  have h2: "fst (update_lambda_msg_from_child example_node ''Z''
               (NdArray (FloatArray [Fin 1, Fin 1, Fin 1])))
      = Inl ValueError_dimensions"
    by (simp add: example_node_simps update_lambda_msg_from_child_def
        update_received_msg_by_key_def)
  have h3: "fst (compute_lambda_agg example_node) = Inl (ValueError_missing_msg ''lambda'')"
    by (simp add: example_node_simps compute_lambda_agg_def eval_defs)
  have h4: "fst (compute_pi_agg example_node) = Inl (ValueError_missing_msg ''pi'')"
    by (simp add: example_node_simps compute_pi_agg_def eval_defs)
  have h5: "fst (compute_lambda_msg_to_parent contradicted_node ''A'') = Inl InvalidLambdaMsgToParent"
    using contradicted_candidate
    by (simp add: contradicted_node_def two_parent_node_simps compute_lambda_msg_to_parent_def
        eval_defs numeral_2_eq_2 np_eq_def float64_products)
  show ?thesis
    using h1 h2 h3 h4 h5
      failed_operation_keeps_state
        [of example_node "''C''" "NdArray (FloatArray [Fin 1, Fin 1])" ValueError_label_not_allowed]
      failed_operation_keeps_state
        [of example_node "''Z''" "NdArray (FloatArray [Fin 1, Fin 1, Fin 1])" ValueError_dimensions]
      failed_operation_keeps_state [of example_node _ _ "ValueError_missing_msg ''lambda''"]
      failed_operation_keeps_state [of example_node _ _ "ValueError_missing_msg ''pi''"]
      failed_operation_keeps_state [of contradicted_node "''A''" _ InvalidLambdaMsgToParent]
    by simp
qed

lemma update_existing_key:
  "k \<in> set (map fst d) \<Longrightarrow>
   map fst (AList.update k v d) = map fst d \<and>
   map_of (AList.update k v d) k = Some v \<and>
   (\<forall>k'. k' \<noteq> k \<longrightarrow> map_of (AList.update k v d) k' = map_of d k')"
  by (simp add: update_conv' update_keys)

lemma set_update_subset: "set (AList.update k v d) \<subseteq> insert (k, v) (set d)"
  by (induction d) auto

lemma node_inv_Node_init: "node_inv (Node_init l cs ps k cpd)"
  by (auto simp: node_inv_def Node_init_def init_received_msgs_def comp_def list_all_iff)

text \<open>A deposit, accepted or rejected, keeps the invariant.\<close>

lemma node_inv_deposit_pi:
  assumes "node_inv n"
  shows "node_inv (snd (update_pi_msg_from_parent n key v))"
proof (cases "fst (update_pi_msg_from_parent n key v)")
  case (Inl e)
  then have "snd (update_pi_msg_from_parent n key v) = n"
    by (auto simp: update_pi_msg_from_parent_def split: sum.splits)
  with assms show ?thesis by simp
next
  case (Inr u)
  then obtain a where v: "v = NdArray a" and a: "shape a = [cardinality n]"
    and k: "key \<in> set (map fst (pi_received_msgs n))"
    by (cases v)
       (auto simp: update_pi_msg_from_parent_def update_received_msg_by_key_def
             split: if_splits)
  have r: "snd (update_pi_msg_from_parent n key v)
      = n\<lparr>pi_received_msgs := AList.update key (Some a) (pi_received_msgs n)\<rparr>"
    using v a k by (simp add: update_pi_msg_from_parent_def update_received_msg_by_key_def)
  have "\<forall>x \<in> set (AList.update key (Some a) (pi_received_msgs n)).
          case x of (k, None) \<Rightarrow> True | (k, Some b) \<Rightarrow> shape b = [cardinality n]"
    using assms a set_update_subset [of key "Some a" "pi_received_msgs n"]
    unfolding node_inv_def list_all_iff by fastforce
  then show ?thesis
    using assms k unfolding r node_inv_def
    by (auto simp: update_keys distinct_update list_all_iff)
qed

lemma node_inv_deposit_lambda:
  assumes "node_inv n"
  shows "node_inv (snd (update_lambda_msg_from_child n key v))"
proof (cases "fst (update_lambda_msg_from_child n key v)")
  case (Inl e)
  then have "snd (update_lambda_msg_from_child n key v) = n"
    by (auto simp: update_lambda_msg_from_child_def split: sum.splits)
  with assms show ?thesis by simp
next
  case (Inr u)
  then obtain a where v: "v = NdArray a" and a: "shape a = [cardinality n]"
    and k: "key \<in> set (map fst (lambda_received_msgs n))"
    by (cases v)
       (auto simp: update_lambda_msg_from_child_def update_received_msg_by_key_def
             split: if_splits)
  have r: "snd (update_lambda_msg_from_child n key v)
      = n\<lparr>lambda_received_msgs := AList.update key (Some a) (lambda_received_msgs n)\<rparr>"
    using v a k by (simp add: update_lambda_msg_from_child_def update_received_msg_by_key_def)
  have "\<forall>x \<in> set (AList.update key (Some a) (lambda_received_msgs n)).
          case x of (k, None) \<Rightarrow> True | (k, Some b) \<Rightarrow> shape b = [cardinality n]"
    using assms a set_update_subset [of key "Some a" "lambda_received_msgs n"]
    unfolding node_inv_def list_all_iff by fastforce
  then show ?thesis
    using assms k unfolding r node_inv_def
    by (auto simp: update_keys distinct_update list_all_iff)
qed

text \<open>The aggregations and the outgoing messages keep the invariant as well.\<close>

lemma node_inv_compute:
  assumes "node_inv n"
  shows "node_inv (snd (compute_lambda_agg n))" and "node_inv (snd (compute_pi_agg n))"
    and "node_inv (snd (compute_lambda_msg_to_parent n k))"
    and "node_inv (snd (compute_pi_msg_to_child n k))"
  using assms
  by (auto simp: compute_lambda_agg_def compute_pi_agg_def compute_lambda_msg_to_parent_def
        compute_pi_msg_to_child_def node_inv_aggs Let_def
      split: sum.splits option.splits scalar.splits)

text \<open>
  C10, as the program has it. A deposit checks the key first, then whether the value is an
  array, then the shape of the array. Under a label that is not a declared neighbour the
  deposit raises the error of the unknown label whatever the value is, so also for a value
  of the wrong type or shape; under a declared label a value that is not an array raises
  the type error whatever its length is; and an array, whatever its elements are, is
  checked for its shape only.
\<close>

theorem deposit_validation_order:
  assumes "node_inv n"
  shows
  "(key \<notin> set (parents n) \<longrightarrow>
      fst (update_pi_msg_from_parent n key v) = Inl ValueError_label_not_allowed) \<and>
   (key \<notin> set (children n) \<longrightarrow>
      fst (update_lambda_msg_from_child n key v) = Inl ValueError_label_not_allowed) \<and>
   (key \<in> set (parents n) \<and> (\<forall>a. v \<noteq> NdArray a) \<longrightarrow>
      fst (update_pi_msg_from_parent n key v) = Inl TypeError_not_ndarray) \<and>
   (key \<in> set (children n) \<and> (\<forall>a. v \<noteq> NdArray a) \<longrightarrow>
      fst (update_lambda_msg_from_child n key v) = Inl TypeError_not_ndarray) \<and>
   (key \<in> set (parents n) \<and> v = NdArray a \<and> shape a \<noteq> [cardinality n] \<longrightarrow>
      fst (update_pi_msg_from_parent n key v) = Inl ValueError_dimensions) \<and>
   (key \<in> set (children n) \<and> v = NdArray a \<and> shape a \<noteq> [cardinality n] \<longrightarrow>
      fst (update_lambda_msg_from_child n key v) = Inl ValueError_dimensions)"
  using assms
  by (cases v)
     (auto simp: update_pi_msg_from_parent_def update_lambda_msg_from_child_def
                 update_received_msg_by_key_def node_inv_def)

theorem deposit_validation_order_witness:
  "node_inv example_node \<and>
   ''C'' \<notin> set (parents example_node) \<and>
   fst (update_pi_msg_from_parent example_node ''C'' (PyList [Fin 1, Fin 1, Fin 1]))
     = Inl ValueError_label_not_allowed \<and>
   fst (update_pi_msg_from_parent example_node ''C'' (NdArray (FloatArray [Fin 1, Fin 1, Fin 1])))
     = Inl ValueError_label_not_allowed \<and>
   ''A'' \<notin> set (children example_node) \<and>
   fst (update_lambda_msg_from_child example_node ''A'' PyNone) = Inl ValueError_label_not_allowed \<and>
   ''B'' \<in> set (parents example_node) \<and>
   fst (update_pi_msg_from_parent example_node ''B'' (PyList [Fin 1, Fin 1, Fin 1]))
     = Inl TypeError_not_ndarray \<and>
   ''Z'' \<in> set (children example_node) \<and>
   fst (update_lambda_msg_from_child example_node ''Z'' (PyList [Fin 1, Fin 1, Fin 1]))
     = Inl TypeError_not_ndarray \<and>
   shape (FloatArray [Fin 1, Fin 1, Fin 1]) \<noteq> [cardinality example_node] \<and>
   fst (update_pi_msg_from_parent example_node ''B'' (NdArray (FloatArray [Fin 1, Fin 1, Fin 1])))
     = Inl ValueError_dimensions \<and>
   fst (update_lambda_msg_from_child example_node ''Z'' (NdArray (FloatArray [Fin 1, Fin 1, Fin 1])))
     = Inl ValueError_dimensions"
  using node_inv_example_node
    deposit_validation_order [OF node_inv_example_node, of "''C''" "PyList [Fin 1, Fin 1, Fin 1]"]
    deposit_validation_order [OF node_inv_example_node, of "''C''"
      "NdArray (FloatArray [Fin 1, Fin 1, Fin 1])" "FloatArray [Fin 1, Fin 1, Fin 1]"]
    deposit_validation_order [OF node_inv_example_node, of "''A''" "PyNone"]
    deposit_validation_order [OF node_inv_example_node, of "''B''" "PyList [Fin 1, Fin 1, Fin 1]"]
    deposit_validation_order [OF node_inv_example_node, of "''Z''" "PyList [Fin 1, Fin 1, Fin 1]"]
    deposit_validation_order [OF node_inv_example_node, of "''B''"
      "NdArray (FloatArray [Fin 1, Fin 1, Fin 1])" "FloatArray [Fin 1, Fin 1, Fin 1]"]
    deposit_validation_order [OF node_inv_example_node, of "''Z''"
      "NdArray (FloatArray [Fin 1, Fin 1, Fin 1])" "FloatArray [Fin 1, Fin 1, Fin 1]"]
  by (simp add: example_node_simps)

text \<open>
  C10, as the specification has it, fails for an array that is no numeric array: an array
  of three strings, deposited under a declared parent of a node of cardinality 2, is not
  rejected for its type but for its shape.
\<close>

theorem deposit_validation_order_counterexample:
  "''B'' \<in> set (parents example_node) \<and> cardinality example_node = 2 \<and>
   \<not> is_numeric (StrArray [''a'', ''b'', ''c'']) \<and>
   fst (update_pi_msg_from_parent example_node ''B'' (NdArray (StrArray [''a'', ''b'', ''c''])))
     = Inl ValueError_dimensions \<and>
   fst (update_pi_msg_from_parent example_node ''B'' (NdArray (StrArray [''a'', ''b'', ''c''])))
     \<noteq> Inl TypeError_not_ndarray"
  by (simp add: example_node_simps update_pi_msg_from_parent_def update_received_msg_by_key_def)

text \<open>
  C6, as the program has it. A deposit of a pi message from a parent or of a lambda message
  from a child fails with the error of the unknown label when the label is not a declared
  parent (child), with the type error when the label is declared and the value is not an
  array, and with the error of the dimensions when it is an array whose shape is not
  \<open>(cardinality,)\<close>; every failure leaves the node, and so the slot, as it was. A declared
  label with an array of the right shape succeeds, whatever the elements of the array are:
  the slot holds the new array, whatever it held before, and every other slot keeps its
  content.
\<close>

theorem deposit_message:
  assumes "node_inv n"
  shows
  "(key \<notin> set (parents n) \<longrightarrow>
      update_pi_msg_from_parent n key v = (Inl ValueError_label_not_allowed, n)) \<and>
   (key \<in> set (parents n) \<and> (\<forall>a. v \<noteq> NdArray a) \<longrightarrow>
      update_pi_msg_from_parent n key v = (Inl TypeError_not_ndarray, n)) \<and>
   (key \<in> set (parents n) \<and> v = NdArray a \<and> shape a \<noteq> [cardinality n] \<longrightarrow>
      update_pi_msg_from_parent n key v = (Inl ValueError_dimensions, n)) \<and>
   (key \<in> set (parents n) \<and> v = NdArray a \<and> shape a = [cardinality n] \<longrightarrow>
      (\<exists>mb. update_pi_msg_from_parent n key v = (Inr (), n\<lparr>pi_received_msgs := mb\<rparr>) \<and>
            map fst mb = map fst (pi_received_msgs n) \<and>
            map_of mb key = Some (Some a) \<and>
            (\<forall>k. k \<noteq> key \<longrightarrow> map_of mb k = map_of (pi_received_msgs n) k))) \<and>
   (key \<notin> set (children n) \<longrightarrow>
      update_lambda_msg_from_child n key v = (Inl ValueError_label_not_allowed, n)) \<and>
   (key \<in> set (children n) \<and> (\<forall>a. v \<noteq> NdArray a) \<longrightarrow>
      update_lambda_msg_from_child n key v = (Inl TypeError_not_ndarray, n)) \<and>
   (key \<in> set (children n) \<and> v = NdArray a \<and> shape a \<noteq> [cardinality n] \<longrightarrow>
      update_lambda_msg_from_child n key v = (Inl ValueError_dimensions, n)) \<and>
   (key \<in> set (children n) \<and> v = NdArray a \<and> shape a = [cardinality n] \<longrightarrow>
      (\<exists>mb. update_lambda_msg_from_child n key v = (Inr (), n\<lparr>lambda_received_msgs := mb\<rparr>) \<and>
            map fst mb = map fst (lambda_received_msgs n) \<and>
            map_of mb key = Some (Some a) \<and>
            (\<forall>k. k \<noteq> key \<longrightarrow> map_of mb k = map_of (lambda_received_msgs n) k)))"
proof -
  have kp: "set (map fst (pi_received_msgs n)) = set (parents n)"
    and kc: "set (map fst (lambda_received_msgs n)) = set (children n)"
    using assms by (simp_all add: node_inv_def)
  have p1: "key \<notin> set (parents n) \<longrightarrow>
      update_pi_msg_from_parent n key v = (Inl ValueError_label_not_allowed, n)"
    using kp by (simp add: update_pi_msg_from_parent_def update_received_msg_by_key_def)
  have p2: "key \<in> set (parents n) \<and> (\<forall>a. v \<noteq> NdArray a) \<longrightarrow>
      update_pi_msg_from_parent n key v = (Inl TypeError_not_ndarray, n)"
    using kp by (cases v) (auto simp: update_pi_msg_from_parent_def update_received_msg_by_key_def)
  have p3: "key \<in> set (parents n) \<and> v = NdArray a \<and> shape a \<noteq> [cardinality n] \<longrightarrow>
      update_pi_msg_from_parent n key v = (Inl ValueError_dimensions, n)"
    using kp by (auto simp: update_pi_msg_from_parent_def update_received_msg_by_key_def)
  have p4: "key \<in> set (parents n) \<and> v = NdArray a \<and> shape a = [cardinality n] \<longrightarrow>
      (\<exists>mb. update_pi_msg_from_parent n key v = (Inr (), n\<lparr>pi_received_msgs := mb\<rparr>) \<and>
            map fst mb = map fst (pi_received_msgs n) \<and>
            map_of mb key = Some (Some a) \<and>
            (\<forall>k. k \<noteq> key \<longrightarrow> map_of mb k = map_of (pi_received_msgs n) k))"
  proof
    assume h: "key \<in> set (parents n) \<and> v = NdArray a \<and> shape a = [cardinality n]"
    then have k: "key \<in> set (map fst (pi_received_msgs n))" using kp by simp
    have "update_pi_msg_from_parent n key v
        = (Inr (), n\<lparr>pi_received_msgs := AList.update key (Some a) (pi_received_msgs n)\<rparr>)"
      using h k by (simp add: update_pi_msg_from_parent_def update_received_msg_by_key_def)
    with update_existing_key [OF k, of "Some a"]
    show "\<exists>mb. update_pi_msg_from_parent n key v = (Inr (), n\<lparr>pi_received_msgs := mb\<rparr>) \<and>
            map fst mb = map fst (pi_received_msgs n) \<and>
            map_of mb key = Some (Some a) \<and>
            (\<forall>k. k \<noteq> key \<longrightarrow> map_of mb k = map_of (pi_received_msgs n) k)"
      by blast
  qed
  have c1: "key \<notin> set (children n) \<longrightarrow>
      update_lambda_msg_from_child n key v = (Inl ValueError_label_not_allowed, n)"
    using kc by (simp add: update_lambda_msg_from_child_def update_received_msg_by_key_def)
  have c2: "key \<in> set (children n) \<and> (\<forall>a. v \<noteq> NdArray a) \<longrightarrow>
      update_lambda_msg_from_child n key v = (Inl TypeError_not_ndarray, n)"
    using kc by (cases v) (auto simp: update_lambda_msg_from_child_def update_received_msg_by_key_def)
  have c3: "key \<in> set (children n) \<and> v = NdArray a \<and> shape a \<noteq> [cardinality n] \<longrightarrow>
      update_lambda_msg_from_child n key v = (Inl ValueError_dimensions, n)"
    using kc by (auto simp: update_lambda_msg_from_child_def update_received_msg_by_key_def)
  have c4: "key \<in> set (children n) \<and> v = NdArray a \<and> shape a = [cardinality n] \<longrightarrow>
      (\<exists>mb. update_lambda_msg_from_child n key v = (Inr (), n\<lparr>lambda_received_msgs := mb\<rparr>) \<and>
            map fst mb = map fst (lambda_received_msgs n) \<and>
            map_of mb key = Some (Some a) \<and>
            (\<forall>k. k \<noteq> key \<longrightarrow> map_of mb k = map_of (lambda_received_msgs n) k))"
  proof
    assume h: "key \<in> set (children n) \<and> v = NdArray a \<and> shape a = [cardinality n]"
    then have k: "key \<in> set (map fst (lambda_received_msgs n))" using kc by simp
    have "update_lambda_msg_from_child n key v
        = (Inr (), n\<lparr>lambda_received_msgs := AList.update key (Some a) (lambda_received_msgs n)\<rparr>)"
      using h k by (simp add: update_lambda_msg_from_child_def update_received_msg_by_key_def)
    with update_existing_key [OF k, of "Some a"]
    show "\<exists>mb. update_lambda_msg_from_child n key v = (Inr (), n\<lparr>lambda_received_msgs := mb\<rparr>) \<and>
            map fst mb = map fst (lambda_received_msgs n) \<and>
            map_of mb key = Some (Some a) \<and>
            (\<forall>k. k \<noteq> key \<longrightarrow> map_of mb k = map_of (lambda_received_msgs n) k)"
      by blast
  qed
  from p1 p2 p3 p4 c1 c2 c3 c4 show ?thesis by blast
qed

theorem deposit_message_witness:
  "node_inv example_node \<and>
   update_pi_msg_from_parent example_node ''C'' (NdArray (FloatArray [Fin 1, Fin 1]))
     = (Inl ValueError_label_not_allowed, example_node) \<and>
   update_pi_msg_from_parent example_node ''B'' PyNone = (Inl TypeError_not_ndarray, example_node) \<and>
   update_pi_msg_from_parent example_node ''B'' (NdArray (FloatArray [Fin 1, Fin 1, Fin 1]))
     = (Inl ValueError_dimensions, example_node) \<and>
   update_pi_msg_from_parent example_node ''A'' (NdArray (FloatArray [Fin 1, Fin 1]))
     = (Inr (), example_node\<lparr>pi_received_msgs :=
                  [(''A'', Some (FloatArray [Fin 1, Fin 1])), (''B'', None)]\<rparr>) \<and>
   update_lambda_msg_from_child example_node ''A'' (NdArray (FloatArray [Fin 1, Fin 1]))
     = (Inl ValueError_label_not_allowed, example_node) \<and>
   update_lambda_msg_from_child example_node ''Z'' (PyList [Fin 1, Fin 1])
     = (Inl TypeError_not_ndarray, example_node) \<and>
   update_lambda_msg_from_child example_node ''Z'' (NdArray (FloatArray [Fin 1]))
     = (Inl ValueError_dimensions, example_node) \<and>
   update_lambda_msg_from_child example_node ''Z'' (NdArray (FloatArray [Fin 1, Fin 1]))
     = (Inr (), example_node\<lparr>lambda_received_msgs := [(''Z'', Some (FloatArray [Fin 1, Fin 1]))]\<rparr>)"
  using node_inv_example_node
    deposit_message [OF node_inv_example_node, of "''C''" "NdArray (FloatArray [Fin 1, Fin 1])"
      "FloatArray [Fin 1, Fin 1]"]
    deposit_message [OF node_inv_example_node, of "''B''" PyNone "FloatArray []"]
    deposit_message [OF node_inv_example_node, of "''B''"
      "NdArray (FloatArray [Fin 1, Fin 1, Fin 1])" "FloatArray [Fin 1, Fin 1, Fin 1]"]
    deposit_message [OF node_inv_example_node, of "''A''" "NdArray (FloatArray [Fin 1, Fin 1])"
      "FloatArray [Fin 1, Fin 1]"]
    deposit_message [OF node_inv_example_node, of "''Z''" "PyList [Fin 1, Fin 1]" "FloatArray []"]
    deposit_message [OF node_inv_example_node, of "''Z''" "NdArray (FloatArray [Fin 1])"
      "FloatArray [Fin 1]"]
    deposit_message [OF node_inv_example_node, of "''Z''" "NdArray (FloatArray [Fin 1, Fin 1])"
      "FloatArray [Fin 1, Fin 1]"]
  by (simp add: example_node_simps update_pi_msg_from_parent_def update_lambda_msg_from_child_def
      update_received_msg_by_key_def)

text \<open>
  C6, as the specification has it, fails for an array that is no numeric vector: an array
  of two strings, deposited under a declared parent of a node of cardinality 2, raises no
  type error but is stored in the slot.
\<close>

theorem deposit_message_counterexample:
  "''B'' \<in> set (parents example_node) \<and> cardinality example_node = 2 \<and>
   \<not> is_numeric (StrArray [''a'', ''b'']) \<and>
   update_pi_msg_from_parent example_node ''B'' (NdArray (StrArray [''a'', ''b'']))
     = (Inr (), example_node\<lparr>pi_received_msgs :=
          [(''A'', Some (FloatArray [Fin dbl_0_4, Fin dbl_0_6])),
           (''B'', Some (StrArray [''a'', ''b'']))]\<rparr>) \<and>
   fst (update_pi_msg_from_parent example_node ''B'' (NdArray (StrArray [''a'', ''b''])))
     \<noteq> Inl TypeError_not_ndarray"
  by (simp add: example_node_simps update_pi_msg_from_parent_def update_received_msg_by_key_def)

section \<open>Properties of the aggregations\<close>

lemma map2_maps:
  "length xs = length ys \<Longrightarrow> map2 f (map g xs) (map h ys) = map2 (\<lambda>x y. f (g x) (h y)) xs ys"
  by (induction xs ys rule: list_induct2) simp_all

lemma nums_products:
  "length xs = length ys \<Longrightarrow> map F (map2 np_mul xs ys) = map2 num_mul (map F xs) (map F ys)"
  "length xs = length ws \<Longrightarrow>
   map F (map2 np_mul xs (map float_of_int64 ws)) = map2 num_mul (map F xs) (map I ws)"
  "length vs = length ys \<Longrightarrow>
   map F (map2 np_mul (map float_of_int64 vs) ys) = map2 num_mul (map I vs) (map F ys)"
  "length vs = length ws \<Longrightarrow> map I (map2 (*) vs ws) = map2 num_mul (map I vs) (map I ws)"
proof -
  show "length xs = length ys \<Longrightarrow> map F (map2 np_mul xs ys) = map2 num_mul (map F xs) (map F ys)"
    by (induction xs ys rule: list_induct2) simp_all
  show "length xs = length ws \<Longrightarrow>
      map F (map2 np_mul xs (map float_of_int64 ws)) = map2 num_mul (map F xs) (map I ws)"
    by (induction xs ws rule: list_induct2) simp_all
  show "length vs = length ys \<Longrightarrow>
      map F (map2 np_mul (map float_of_int64 vs) ys) = map2 num_mul (map I vs) (map F ys)"
    by (induction vs ys rule: list_induct2) simp_all
  show "length vs = length ws \<Longrightarrow> map I (map2 (*) vs ws) = map2 num_mul (map I vs) (map I ws)"
    by (induction vs ws rule: list_induct2) simp_all
qed

lemma as_floats_simps:
  "as_floats (FloatArray xs) = xs" "as_floats (IntArray ws) = map float_of_int64 ws"
  by (simp_all add: as_floats_def comp_def)

lemma length_nums: "is_numeric a \<Longrightarrow> shape a = [k] \<Longrightarrow> length (nums a) = k"
  by (cases a) auto

lemma shape_nums: "is_numeric a \<Longrightarrow> shape a = [length (nums a)]"
  by (cases a) auto

text \<open>A numeric array is given by its kind and its elements.\<close>

lemma numeric_array_eq:
  "is_numeric c \<Longrightarrow>
   c = (if is_int_array c then IntArray (map the_I (nums c)) else FloatArray (map to_float (nums c)))"
  by (cases c) (simp_all add: comp_def)

text \<open>The product of two numeric arrays of one length, element by element.\<close>

lemma np_multiply_numeric:
  assumes "is_numeric a" and "is_numeric b" and "length (nums a) = length (nums b)"
  shows "\<exists>c. np_multiply a b = Inr c \<and> is_numeric c \<and>
             nums c = map2 num_mul (nums a) (nums b) \<and>
             is_int_array c = (is_int_array a \<and> is_int_array b)"
proof (cases a)
  case a: (FloatArray xs)
  show ?thesis
  proof (cases b)
    case (FloatArray ys)
    then show ?thesis using a assms(3)
      by (simp add: np_binop_def float_result_def as_floats_simps nums_products(1) del: map_map)
  next
    case (IntArray ws)
    then show ?thesis using a assms(3)
      by (simp add: np_binop_def float_result_def as_floats_simps nums_products(2) del: map_map)
  next
    case (StrArray ss)
    then show ?thesis using assms(2) by simp
  qed
next
  case a: (IntArray vs)
  show ?thesis
  proof (cases b)
    case (FloatArray ys)
    then show ?thesis using a assms(3)
      by (simp add: np_binop_def float_result_def as_floats_simps nums_products(3) del: map_map)
  next
    case (IntArray ws)
    then show ?thesis using a assms(3)
      by (simp add: np_binop_def int_result_def nums_products(4) del: map_map)
  next
    case (StrArray ss)
    then show ?thesis using assms(2) by simp
  qed
next
  case (StrArray ss)
  then show ?thesis using assms(1) by simp
qed

lemma fold_multiply_numeric:
  "is_numeric acc \<Longrightarrow> length (nums acc) = k \<Longrightarrow>
   \<forall>m \<in> set ms. is_numeric m \<and> shape m = [k] \<Longrightarrow>
   \<exists>c. fold_multiply acc ms = Inr c \<and> is_numeric c \<and>
       nums c = map (\<lambda>i. foldl num_mul (nums acc ! i) (map (\<lambda>m. nums m ! i) ms)) [0..<k] \<and>
       is_int_array c = (is_int_array acc \<and> (\<forall>m \<in> set ms. is_int_array m))"
proof (induction ms arbitrary: acc)
  case Nil
  then show ?case using map_nth [of "nums acc"] by simp
next
  case (Cons m ms)
  have m: "is_numeric m" "length (nums m) = k"
    using Cons.prems(3) length_nums [of m k] by simp_all
  from np_multiply_numeric [OF Cons.prems(1) m(1)] Cons.prems(2) m(2)
  obtain c where c: "np_multiply acc m = Inr c" "is_numeric c"
    "nums c = map2 num_mul (nums acc) (nums m)"
    "is_int_array c = (is_int_array acc \<and> is_int_array m)"
    by auto
  have len: "length (nums c) = k" using c(3) Cons.prems(2) m(2) by simp
  have rest: "\<forall>m \<in> set ms. is_numeric m \<and> shape m = [k]" using Cons.prems(3) by simp
  from Cons.IH [OF c(2) len rest]
  obtain d where d: "fold_multiply c ms = Inr d" "is_numeric d"
    "nums d = map (\<lambda>i. foldl num_mul (nums c ! i) (map (\<lambda>m. nums m ! i) ms)) [0..<k]"
    "is_int_array d = (is_int_array c \<and> (\<forall>m \<in> set ms. is_int_array m))"
    by auto
  have "nums d = map (\<lambda>i. foldl num_mul (nums acc ! i) (map (\<lambda>m. nums m ! i) (m # ms))) [0..<k]"
    unfolding d(3) c(3) using Cons.prems(2) m(2) by simp
  then show ?case using c(1,4) d(1,2,4) by simp
qed

lemma fold_multiply_not_numeric:
  "ms \<noteq> [] \<Longrightarrow> \<forall>m \<in> set (acc # ms). shape m = [k] \<Longrightarrow>
   \<exists>m \<in> set (acc # ms). \<not> is_numeric m \<Longrightarrow> fold_multiply acc ms = Inl TypeError"
proof (induction ms arbitrary: acc)
  case Nil
  then show ?case by simp
next
  case (Cons m ms)
  show ?case
  proof (cases "is_numeric acc \<and> is_numeric m")
    case False
    then have "np_multiply acc m = Inl TypeError" by (cases acc; cases m) simp_all
    then show ?thesis by simp
  next
    case True
    have l: "length (nums acc) = k" "length (nums m) = k"
      using Cons.prems(2) True length_nums by simp_all
    from np_multiply_numeric [of acc m] True l
    obtain c where c: "np_multiply acc m = Inr c" "is_numeric c"
      "nums c = map2 num_mul (nums acc) (nums m)"
      by auto
    have sc: "shape c = [k]" using shape_nums [OF c(2)] c(3) l by simp
    have ex: "\<exists>m \<in> set ms. \<not> is_numeric m" using Cons.prems(3) True by auto
    then have ne: "ms \<noteq> []" by auto
    have "fold_multiply c ms = Inl TypeError"
      using Cons.IH [OF ne, of c] Cons.prems(2) sc ex by simp
    then show ?thesis using c(1) by simp
  qed
qed

lemma slot_unset_iff:
  "distinct (map fst d) \<Longrightarrow>
   (\<exists>k \<in> set (map fst d). map_of d k = Some None) = (None \<in> set (map snd d))"
  by (force simp: image_iff)

lemma validate_LAMBDA:
  "validate_and_return_msgs_received_for_msg_type n LAMBDA =
     (if None \<in> set (map snd (lambda_received_msgs n))
      then Inl (ValueError_missing_msg ''lambda'')
      else Inr (map (the \<circ> snd) (lambda_received_msgs n)))"
  by (auto simp: validate_and_return_msgs_received_for_msg_type_def
      return_msgs_received_for_msg_type_def list_ex_iff image_iff)

lemma validate_PI:
  "validate_and_return_msgs_received_for_msg_type n PI =
     (if None \<in> set (map snd (pi_received_msgs n))
      then Inl (ValueError_missing_msg ''pi'')
      else Inr (map (the \<circ> snd) (pi_received_msgs n)))"
  by (auto simp: validate_and_return_msgs_received_for_msg_type_def
      return_msgs_received_for_msg_type_def list_ex_iff image_iff)

text \<open>What a property of all slots of a mailbox says of the messages, once every slot is
  set.\<close>

lemma present_msgs:
  "list_all (\<lambda>(k, msg). case msg of None \<Rightarrow> True | Some a \<Rightarrow> P a) d \<Longrightarrow>
   None \<notin> set (map snd d) \<Longrightarrow> \<forall>m \<in> set (map (the \<circ> snd) d). P m"
proof -
  assume a: "list_all (\<lambda>(k, msg). case msg of None \<Rightarrow> True | Some a \<Rightarrow> P a) d"
    and b: "None \<notin> set (map snd d)"
  have "P (the (snd x))" if "x \<in> set d" for x
  proof (cases x)
    case (Pair k msg)
    with b that obtain m where "msg = Some m" by (cases msg) force+
    with a that Pair show ?thesis by (auto simp: list_all_iff)
  qed
  then show ?thesis by simp
qed

lemma present_msgs_iff:
  "None \<notin> set (map snd d) \<Longrightarrow>
   list_all (\<lambda>(k, msg). case msg of None \<Rightarrow> True | Some a \<Rightarrow> P a) d
     = (\<forall>m \<in> set (map (the \<circ> snd) d). P m)"
  by (force simp: list_all_iff split: option.splits)

lemma present_msgs_not_numeric:
  "\<not> numeric_msgs d \<Longrightarrow> \<exists>m \<in> set (map (the \<circ> snd) d). \<not> is_numeric m"
  by (auto simp: numeric_msgs_def list_all_iff split: option.splits) force

lemma components_msgs:
  "components mb i = map (\<lambda>m. nums m ! i) (map (the \<circ> snd) mb)"
  by (simp add: components_def comp_def case_prod_beta)

text \<open>The product of the numeric messages of a mailbox, as \<open>reduce\<close> computes it.\<close>

lemma reduce_multiply_numeric:
  assumes "mb \<noteq> []" and "None \<notin> set (map snd mb)"
    and "\<forall>m \<in> set (map (the \<circ> snd) mb). is_numeric m \<and> shape m = [k]"
  shows "reduce_multiply (map (the \<circ> snd) mb) = Inr (elementwise_product k mb)"
proof (cases "map (the \<circ> snd) mb")
  case Nil
  with assms(1) show ?thesis by simp
next
  case (Cons m ms)
  have m: "is_numeric m" "length (nums m) = k"
    using assms(3) Cons length_nums [of m k] by simp_all
  have rest: "\<forall>m \<in> set ms. is_numeric m \<and> shape m = [k]" using assms(3) Cons by simp
  from fold_multiply_numeric [OF m rest]
  obtain c where c: "fold_multiply m ms = Inr c" "is_numeric c"
    "nums c = map (\<lambda>i. foldl num_mul (nums m ! i) (map (\<lambda>m. nums m ! i) ms)) [0..<k]"
    "is_int_array c = (is_int_array m \<and> (\<forall>m \<in> set ms. is_int_array m))"
    by auto
  have comp: "components mb i = nums m ! i # map (\<lambda>m. nums m ! i) ms" for i
    by (simp add: components_msgs Cons)
  have n: "nums c = map (\<lambda>i. product_from_left (components mb i)) [0..<k]"
    unfolding c(3) by (simp add: comp product_from_left_def)
  have i: "is_int_array c = int_msgs mb"
    unfolding c(4) int_msgs_def present_msgs_iff [OF assms(2)] Cons by simp
  have "c = elementwise_product k mb"
    using numeric_array_eq [OF c(2)] unfolding n i elementwise_product_def
    by (simp add: comp_def)
  then show ?thesis using c(1) Cons by simp
qed

lemma reduce_multiply_not_numeric:
  assumes "\<forall>m \<in> set (map (the \<circ> snd) mb). shape m = [k]"
    and "\<exists>m \<in> set (map (the \<circ> snd) mb). \<not> is_numeric m"
  shows "reduce_multiply (map (the \<circ> snd) mb)
     = (if length mb = 1 then Inr (the (snd (hd mb))) else Inl TypeError)"
proof (cases mb)
  case Nil
  with assms(2) show ?thesis by simp
next
  case (Cons x xs)
  show ?thesis
  proof (cases xs)
    case Nil
    then show ?thesis using Cons by simp
  next
    case c: (Cons y ys)
    have "fold_multiply (the (snd x)) (map (the \<circ> snd) xs) = Inl TypeError"
      using assms Cons c by (intro fold_multiply_not_numeric [where k = k]) auto
    then show ?thesis using Cons c by simp
  qed
qed

lemma lambda_ready_node_simps:
  "lambda_ready_node =
     \<lparr>label_id = ''X'', children = [''U'', ''V'', ''W''], parents = [], cardinality = 2,
      cpd_values = FloatArray [Fin (1/2), Fin (1/2)], pi_agg = None, lambda_agg = None,
      pi_received_msgs = [],
      lambda_received_msgs =
        [(''U'', Some (FloatArray [Fin 2, Fin 3])), (''V'', Some (FloatArray [Fin 5, Fin 7])),
         (''W'', Some (FloatArray [Fin 1, Fin 0]))]\<rparr>"
  by (simp add: lambda_ready_node_def eval_defs)

lemma int_ready_node_simps:
  "int_ready_node =
     \<lparr>label_id = ''X'', children = [''U'', ''V''], parents = [], cardinality = 2,
      cpd_values = FloatArray [Fin (1/2), Fin (1/2)], pi_agg = None, lambda_agg = None,
      pi_received_msgs = [],
      lambda_received_msgs =
        [(''U'', Some (IntArray [2 ^ 32, 1])), (''V'', Some (IntArray [2 ^ 32, 1]))]\<rparr>"
  by (simp add: int_ready_node_def eval_defs del: power_numeral)

lemma leaf_node_simps:
  "leaf_node =
     \<lparr>label_id = ''L'', children = [], parents = [''X''], cardinality = 2,
      cpd_values = FloatArray [Fin (1/2), Fin (1/2)], pi_agg = None,
      lambda_agg = Some (FloatArray [Fin 1, Fin 1]),
      pi_received_msgs = [(''X'', None)], lambda_received_msgs = []\<rparr>"
  by (simp add: leaf_node_def eval_defs)

lemma overflow_node_simps:
  "overflow_node =
     \<lparr>label_id = ''X'', children = [''U'', ''V'', ''W''], parents = [], cardinality = 2,
      cpd_values = FloatArray [Fin (1/2), Fin (1/2)], pi_agg = None, lambda_agg = None,
      pi_received_msgs = [],
      lambda_received_msgs =
          [(''U'', Some (FloatArray [Fin (2 ^ 600), Fin 1])),
           (''V'', Some (FloatArray [Fin (2 ^ 600), Fin 1])),
           (''W'', Some (FloatArray [Fin (1 / 2 ^ 600), Fin 1]))]\<rparr>"
  "overflow_node_permuted =
     \<lparr>label_id = ''X'', children = [''W'', ''U'', ''V''], parents = [], cardinality = 2,
      cpd_values = FloatArray [Fin (1/2), Fin (1/2)], pi_agg = None, lambda_agg = None,
      pi_received_msgs = [],
      lambda_received_msgs =
          [(''W'', Some (FloatArray [Fin (1 / 2 ^ 600), Fin 1])),
           (''U'', Some (FloatArray [Fin (2 ^ 600), Fin 1])),
           (''V'', Some (FloatArray [Fin (2 ^ 600), Fin 1]))]\<rparr>"
  by (simp_all add: overflow_node_def overflow_node_permuted_def eval_defs del: power_numeral)

lemma node_inv_lambda_ready_node: "node_inv lambda_ready_node"
  by (simp add: lambda_ready_node_simps node_inv_def)

lemma node_inv_int_ready_node: "node_inv int_ready_node"
  by (simp add: int_ready_node_simps node_inv_def del: power_numeral)

lemma node_inv_leaf_node: "node_inv leaf_node"
  by (simp add: leaf_node_simps node_inv_def)

lemma node_inv_overflow_node: "node_inv overflow_node" "node_inv overflow_node_permuted"
  by (simp_all add: overflow_node_simps node_inv_def del: power_numeral)

text \<open>
  C5, as the program has it. \<open>compute_lambda_agg\<close> on a node with no children returns the
  current \<open>lambda_agg\<close> and changes nothing. On a node with children it raises the error of
  the missing lambda message exactly when the slot of some child is unset. When no slot is
  unset and the messages are numeric arrays, it stores and returns their elementwise
  product, each component multiplied from left to right in the order of the mailbox, which
  is the order of the children: in float64 every product is rounded, in int64 it wraps
  around. Messages among which there is an array that holds no numbers are a type error of
  the multiplication that leaves the node as it was, except for a single message, which is
  stored and returned as it is.
\<close>

theorem compute_lambda_agg_product:
  assumes "node_inv n"
  shows
  "(children n = [] \<longrightarrow> compute_lambda_agg n = (Inr (lambda_agg n), n)) \<and>
   (children n \<noteq> [] \<longrightarrow>
      (fst (compute_lambda_agg n) = Inl (ValueError_missing_msg ''lambda''))
        = (\<exists>c \<in> set (children n). map_of (lambda_received_msgs n) c = Some None)) \<and>
   (children n \<noteq> [] \<and>
    (\<forall>c \<in> set (children n). map_of (lambda_received_msgs n) c \<noteq> Some None) \<and>
    numeric_msgs (lambda_received_msgs n) \<longrightarrow>
      compute_lambda_agg n =
        (Inr (Some (elementwise_product (cardinality n) (lambda_received_msgs n))),
         n\<lparr>lambda_agg := Some (elementwise_product (cardinality n) (lambda_received_msgs n))\<rparr>)) \<and>
   (children n \<noteq> [] \<and>
    (\<forall>c \<in> set (children n). map_of (lambda_received_msgs n) c \<noteq> Some None) \<and>
    \<not> numeric_msgs (lambda_received_msgs n) \<longrightarrow>
      compute_lambda_agg n =
        (if length (lambda_received_msgs n) = 1
         then (Inr (snd (hd (lambda_received_msgs n))),
               n\<lparr>lambda_agg := snd (hd (lambda_received_msgs n))\<rparr>)
         else (Inl TypeError, n)))"
proof -
  let ?d = "lambda_received_msgs n"
  have dist: "distinct (map fst ?d)" and keys: "set (map fst ?d) = set (children n)"
    and shp: "list_all (\<lambda>(k, msg). case msg of None \<Rightarrow> True | Some a \<Rightarrow> shape a = [cardinality n]) ?d"
    using assms by (simp_all add: node_inv_def)
  have unset: "(\<exists>c \<in> set (children n). map_of ?d c = Some None) = (None \<in> set (map snd ?d))"
    using slot_unset_iff [OF dist, unfolded keys] .
  have leaf: "children n = [] \<longrightarrow> compute_lambda_agg n = (Inr (lambda_agg n), n)"
    by (simp add: compute_lambda_agg_def)
  have missing: "fst (compute_lambda_agg n) = Inl (ValueError_missing_msg ''lambda'')"
    if "children n \<noteq> []" and "None \<in> set (map snd ?d)"
    using that by (simp add: compute_lambda_agg_def validate_LAMBDA)
  have ok: "compute_lambda_agg n =
        (Inr (Some (elementwise_product (cardinality n) ?d)),
         n\<lparr>lambda_agg := Some (elementwise_product (cardinality n) ?d)\<rparr>)"
    if c: "children n \<noteq> []" and a: "None \<notin> set (map snd ?d)" and f: "numeric_msgs ?d"
  proof -
    have ne: "?d \<noteq> []" using keys c by auto
    have "\<forall>m \<in> set (map (the \<circ> snd) ?d). is_numeric m \<and> shape m = [cardinality n]"
      using present_msgs [OF shp a] present_msgs [OF f [unfolded numeric_msgs_def] a] by simp
    from reduce_multiply_numeric [OF ne a this] show ?thesis
      using c a by (simp add: compute_lambda_agg_def validate_LAMBDA)
  qed
  have other: "compute_lambda_agg n =
        (if length ?d = 1 then (Inr (snd (hd ?d)), n\<lparr>lambda_agg := snd (hd ?d)\<rparr>)
         else (Inl TypeError, n))"
    if c: "children n \<noteq> []" and a: "None \<notin> set (map snd ?d)" and f: "\<not> numeric_msgs ?d"
  proof -
    have ne: "?d \<noteq> []" using keys c by auto
    then have "snd (hd ?d) \<noteq> None" using a by (cases ?d) auto
    then have s: "Some (the (snd (hd ?d))) = snd (hd ?d)" by simp
    from reduce_multiply_not_numeric [OF present_msgs [OF shp a] present_msgs_not_numeric [OF f]]
    show ?thesis using c a s by (simp add: compute_lambda_agg_def validate_LAMBDA)
  qed
  have iff: "children n \<noteq> [] \<longrightarrow>
      (fst (compute_lambda_agg n) = Inl (ValueError_missing_msg ''lambda''))
        = (\<exists>c \<in> set (children n). map_of ?d c = Some None)"
  proof
    assume c: "children n \<noteq> []"
    show "(fst (compute_lambda_agg n) = Inl (ValueError_missing_msg ''lambda''))
        = (\<exists>c \<in> set (children n). map_of ?d c = Some None)"
    proof (cases "None \<in> set (map snd ?d)")
      case True
      then show ?thesis using missing [OF c] unset by simp
    next
      case False
      then show ?thesis
        using ok [OF c False] other [OF c False] unset by (cases "numeric_msgs ?d") auto
    qed
  qed
  from leaf iff ok other unset show ?thesis by blast
qed

lemma lambda_ready_product:
  "elementwise_product 2 (lambda_received_msgs lambda_ready_node) = FloatArray [Fin 10, Fin 0]"
  by (simp add: lambda_ready_node_simps elementwise_product_def product_from_left_def
      components_def int_msgs_def numeral_2_eq_2 float64_products)

lemma upt_0_2: "[0..<2] = [0, 1]"
  by (simp add: numeral_2_eq_2)

lemma int_ready_product:
  "elementwise_product 2 (lambda_received_msgs int_ready_node) = IntArray [0, 1]"
  by (simp add: int_ready_node_simps elementwise_product_def product_from_left_def
      components_def int_msgs_def upt_0_2)

theorem compute_lambda_agg_product_witness:
  "node_inv leaf_node \<and> children leaf_node = [] \<and>
   compute_lambda_agg leaf_node = (Inr (Some (FloatArray [Fin 1, Fin 1])), leaf_node) \<and>
   node_inv example_node \<and> children example_node \<noteq> [] \<and>
   map_of (lambda_received_msgs example_node) ''Z'' = Some None \<and>
   fst (compute_lambda_agg example_node) = Inl (ValueError_missing_msg ''lambda'') \<and>
   node_inv lambda_ready_node \<and> children lambda_ready_node \<noteq> [] \<and>
   numeric_msgs (lambda_received_msgs lambda_ready_node) \<and>
   map_of (lambda_received_msgs lambda_ready_node) ''U'' = Some (Some (FloatArray [Fin 2, Fin 3])) \<and>
   map_of (lambda_received_msgs lambda_ready_node) ''V'' = Some (Some (FloatArray [Fin 5, Fin 7])) \<and>
   map_of (lambda_received_msgs lambda_ready_node) ''W'' = Some (Some (FloatArray [Fin 1, Fin 0])) \<and>
   compute_lambda_agg lambda_ready_node
     = (Inr (Some (FloatArray [Fin 10, Fin 0])),
        lambda_ready_node\<lparr>lambda_agg := Some (FloatArray [Fin 10, Fin 0])\<rparr>) \<and>
   node_inv int_ready_node \<and> children int_ready_node \<noteq> [] \<and>
   numeric_msgs (lambda_received_msgs int_ready_node) \<and>
   map_of (lambda_received_msgs int_ready_node) ''U'' = Some (Some (IntArray [2 ^ 32, 1])) \<and>
   map_of (lambda_received_msgs int_ready_node) ''V'' = Some (Some (IntArray [2 ^ 32, 1])) \<and>
   compute_lambda_agg int_ready_node
     = (Inr (Some (IntArray [0, 1])), int_ready_node\<lparr>lambda_agg := Some (IntArray [0, 1])\<rparr>) \<and>
   node_inv (snd (update_lambda_msg_from_child example_node ''Z'' (NdArray (StrArray [''a'', ''b''])))) \<and>
   \<not> numeric_msgs (lambda_received_msgs
       (snd (update_lambda_msg_from_child example_node ''Z'' (NdArray (StrArray [''a'', ''b'']))))) \<and>
   fst (compute_lambda_agg
       (snd (update_lambda_msg_from_child example_node ''Z'' (NdArray (StrArray [''a'', ''b''])))))
     = Inr (Some (StrArray [''a'', ''b'']))"
proof -
  let ?s = "snd (update_lambda_msg_from_child example_node ''Z'' (NdArray (StrArray [''a'', ''b''])))"
  have s: "?s = example_node\<lparr>lambda_received_msgs := [(''Z'', Some (StrArray [''a'', ''b'']))]\<rparr>"
    by (simp add: example_node_simps update_lambda_msg_from_child_def update_received_msg_by_key_def)
  have inv_s: "node_inv ?s" by (rule node_inv_deposit_lambda [OF node_inv_example_node])
  have l: "compute_lambda_agg leaf_node = (Inr (Some (FloatArray [Fin 1, Fin 1])), leaf_node)"
    using compute_lambda_agg_product [OF node_inv_leaf_node]
    by (simp add: leaf_node_simps)
  have m: "fst (compute_lambda_agg example_node) = Inl (ValueError_missing_msg ''lambda'')"
    using compute_lambda_agg_product [OF node_inv_example_node]
    by (simp add: example_node_simps)
  have r: "compute_lambda_agg lambda_ready_node
     = (Inr (Some (FloatArray [Fin 10, Fin 0])),
        lambda_ready_node\<lparr>lambda_agg := Some (FloatArray [Fin 10, Fin 0])\<rparr>)"
    using compute_lambda_agg_product [OF node_inv_lambda_ready_node] lambda_ready_product
    by (simp add: lambda_ready_node_simps numeric_msgs_def)
  have i: "compute_lambda_agg int_ready_node
     = (Inr (Some (IntArray [0, 1])), int_ready_node\<lparr>lambda_agg := Some (IntArray [0, 1])\<rparr>)"
    using compute_lambda_agg_product [OF node_inv_int_ready_node] int_ready_product
    by (simp add: int_ready_node_simps numeric_msgs_def del: power_numeral)
  have t: "fst (compute_lambda_agg ?s) = Inr (Some (StrArray [''a'', ''b'']))"
    using compute_lambda_agg_product [OF inv_s] unfolding s
    by (simp add: example_node_simps numeric_msgs_def)
  have f: "numeric_msgs (lambda_received_msgs lambda_ready_node)"
    "numeric_msgs (lambda_received_msgs int_ready_node)"
    "\<not> numeric_msgs (lambda_received_msgs ?s)"
    unfolding s
    by (simp_all add: lambda_ready_node_simps int_ready_node_simps example_node_simps
        numeric_msgs_def del: power_numeral)
  have k: "children leaf_node = []" "children example_node \<noteq> []"
    "map_of (lambda_received_msgs example_node) ''Z'' = Some None"
    "children lambda_ready_node \<noteq> []"
    "map_of (lambda_received_msgs lambda_ready_node) ''U'' = Some (Some (FloatArray [Fin 2, Fin 3]))"
    "map_of (lambda_received_msgs lambda_ready_node) ''V'' = Some (Some (FloatArray [Fin 5, Fin 7]))"
    "map_of (lambda_received_msgs lambda_ready_node) ''W'' = Some (Some (FloatArray [Fin 1, Fin 0]))"
    "children int_ready_node \<noteq> []"
    "map_of (lambda_received_msgs int_ready_node) ''U'' = Some (Some (IntArray [2 ^ 32, 1]))"
    "map_of (lambda_received_msgs int_ready_node) ''V'' = Some (Some (IntArray [2 ^ 32, 1]))"
    by (simp_all add: leaf_node_simps example_node_simps lambda_ready_node_simps
        int_ready_node_simps del: power_numeral)
  from l m r i t f k inv_s node_inv_leaf_node node_inv_example_node node_inv_lambda_ready_node
    node_inv_int_ready_node
  show ?thesis by blast
qed

text \<open>
  C5, as the specification has it, fails for the order of the children: the rounded
  product depends on it. Three children report \<open>[2^600, 1]\<close>, \<open>[2^600, 1]\<close> and
  \<open>[2^-600, 1]\<close>. In this order the first product overflows and the aggregate is
  \<open>[inf, 1]\<close>; with the third child first, the same messages give \<open>[2^600, 1]\<close>.
\<close>

theorem compute_lambda_agg_order_counterexample:
  "node_inv overflow_node \<and> node_inv overflow_node_permuted \<and>
   numeric_msgs (lambda_received_msgs overflow_node) \<and>
   mset (children overflow_node_permuted) = mset (children overflow_node) \<and>
   cardinality overflow_node_permuted = cardinality overflow_node \<and>
   mset (lambda_received_msgs overflow_node_permuted) = mset (lambda_received_msgs overflow_node) \<and>
   fst (compute_lambda_agg overflow_node) = Inr (Some (FloatArray [PInf, Fin 1])) \<and>
   fst (compute_lambda_agg overflow_node_permuted) = Inr (Some (FloatArray [Fin (2 ^ 600), Fin 1])) \<and>
   fst (compute_lambda_agg overflow_node_permuted) \<noteq> fst (compute_lambda_agg overflow_node)"
proof -
  have a: "fst (compute_lambda_agg overflow_node) = Inr (Some (FloatArray [PInf, Fin 1]))"
    by (simp add: overflow_node_simps compute_lambda_agg_def eval_defs float64_overflow
        float64_products del: power_numeral)
  have b: "fst (compute_lambda_agg overflow_node_permuted)
      = Inr (Some (FloatArray [Fin (2 ^ 600), Fin 1]))"
    by (simp add: overflow_node_simps compute_lambda_agg_def eval_defs float64_overflow
        float64_products del: power_numeral)
  have c: "mset (lambda_received_msgs overflow_node_permuted)
      = mset (lambda_received_msgs overflow_node)"
    by (simp add: overflow_node_simps del: power_numeral)
  show ?thesis
    using a b c node_inv_overflow_node
    by (simp add: overflow_node_simps numeric_msgs_def del: power_numeral)
qed

section \<open>Properties of a Bernoulli-OR node\<close>

lemma getitems0_numeric:
  "\<forall>m \<in> set ms. is_numeric m \<and> shape m = [Suc k] \<Longrightarrow>
   getitems0 ms = Inr (map (\<lambda>m. Num (nums m ! 0)) ms)"
proof (induction ms)
  case Nil
  then show ?case by simp
next
  case (Cons m ms)
  then have "getitem m 0 = Inr (Num (nums m ! 0))" by (cases m) auto
  then show ?case using Cons by simp
qed

lemma getitems0_shapes:
  "\<forall>m \<in> set ms. shape m = [Suc k] \<Longrightarrow>
   \<exists>xs. getitems0 ms = Inr xs \<and> length xs = length ms \<and>
        (\<forall>i < length ms. is_numeric (ms ! i) = (\<exists>a. xs ! i = Num a))"
proof (induction ms)
  case Nil
  then show ?case by simp
next
  case (Cons m ms)
  then obtain xs where xs: "getitems0 ms = Inr xs" "length xs = length ms"
    "\<forall>i < length ms. is_numeric (ms ! i) = (\<exists>a. xs ! i = Num a)"
    by auto
  have "\<exists>x. getitem m 0 = Inr x \<and> is_numeric m = (\<exists>a. x = Num a)"
  proof (cases m)
    case (FloatArray ys)
    then have "ys \<noteq> []" using Cons.prems by auto
    then show ?thesis using FloatArray by simp
  next
    case (IntArray ws)
    then have "ws \<noteq> []" using Cons.prems by auto
    then show ?thesis using IntArray by simp
  next
    case (StrArray ss)
    then have "ss \<noteq> []" using Cons.prems by auto
    then show ?thesis using StrArray by simp
  qed
  then obtain x where x: "getitem m 0 = Inr x" "is_numeric m = (\<exists>a. x = Num a)"
    by blast
  have "\<forall>i < length (m # ms). is_numeric ((m # ms) ! i) = (\<exists>a. (x # xs) ! i = Num a)"
    using xs(3) x(2) by (auto simp: nth_Cons split: nat.splits)
  then show ?case using xs x by simp
qed

lemma fold_times_nums: "fold_times (Num a) (map Num xs) = Inr (Num (foldl num_mul a xs))"
  by (induction xs arbitrary: a) simp_all

lemma reduce_times_nums:
  "xs \<noteq> [] \<Longrightarrow> reduce_times (map Num xs) = Inr (Num (product_from_left xs))"
  by (cases xs) (simp_all add: fold_times_nums product_from_left_def)

lemma reduce_times_from_one_nums:
  "reduce_times_from_one (map Num xs) = Inr (Num (foldl num_mul (I 1) xs))"
  by (simp add: reduce_times_from_one_def fold_times_nums)

lemma fold_times_not_numeric:
  "(\<exists>s. acc = Str s) \<or> (\<exists>x \<in> set xs. \<exists>s. x = Str s) \<Longrightarrow>
   fold_times acc xs = Inl TypeError \<or> (\<exists>s. fold_times acc xs = Inr (Str s))"
proof (induction xs arbitrary: acc)
  case Nil
  then show ?case by auto
next
  case (Cons x xs)
  show ?case
  proof (cases acc)
    case (Str s)
    then show ?thesis by simp
  next
    case acc: (Num a)
    show ?thesis
    proof (cases x)
      case (Str s)
      then show ?thesis using acc by simp
    next
      case (Num b)
      then have "\<exists>x \<in> set xs. \<exists>s. x = Str s" using Cons.prems acc by auto
      then show ?thesis using Cons.IH [of "Num (num_mul a b)"] acc Num by simp
    qed
  qed
qed

lemma reduce_times_not_numeric:
  "\<exists>x \<in> set xs. \<exists>s. x = Str s \<Longrightarrow>
   reduce_times xs = Inl TypeError \<or> (\<exists>s. reduce_times xs = Inr (Str s))"
proof (cases xs)
  case Nil
  then show ?thesis by simp
next
  case (Cons x xs')
  assume "\<exists>x \<in> set xs. \<exists>s. x = Str s"
  then have "(\<exists>s. x = Str s) \<or> (\<exists>x \<in> set xs'. \<exists>s. x = Str s)" using Cons by auto
  then show ?thesis using fold_times_not_numeric [of x xs'] Cons by simp
qed

lemma root_node_simps:
  "root_node =
     \<lparr>label_id = ''X'', children = [''Y''], parents = [], cardinality = 2,
      cpd_values = FloatArray [Fin (1/2), Fin (1/2)], pi_agg = None, lambda_agg = None,
      pi_received_msgs = [], lambda_received_msgs = [(''Y'', None)]\<rparr>"
  by (simp add: root_node_def eval_defs)

lemma node_inv_root_node: "node_inv root_node"
  by (simp add: root_node_simps node_inv_def)

text \<open>
  C2. \<open>compute_pi_agg\<close> of a Bernoulli-OR node with no parents stores and returns the values
  of its own table. With parents it raises the error of the missing pi message, and changes
  nothing, when the slot of some parent is unset; when every slot is set it stores and
  returns \<open>[p0, 1 - p0]\<close>, where \<open>p0\<close> is the product over all parents, in the order of the
  mailbox, of component 0 of the parent's pi message. With the messages \<open>[0.4, 0.6]\<close> and
  \<open>[0.5, 0.5]\<close> the result is \<open>[0.2, 0.8]\<close>, each the binary64 number of that literal.
  Where a message is an array that holds no numbers, the arithmetic is a type error and
  nothing changes.
\<close>

theorem compute_pi_agg_bernoulli_or:
  assumes "node_inv n" and "cardinality n = 2"
  shows
  "(parents n = [] \<longrightarrow>
      compute_pi_agg n = (Inr (cpd_values n), n\<lparr>pi_agg := Some (cpd_values n)\<rparr>)) \<and>
   (parents n \<noteq> [] \<longrightarrow>
      ((\<exists>p \<in> set (parents n). map_of (pi_received_msgs n) p = Some None) \<longrightarrow>
         compute_pi_agg n = (Inl (ValueError_missing_msg ''pi''), n)) \<and>
      ((\<forall>p \<in> set (parents n). map_of (pi_received_msgs n) p \<noteq> Some None) \<and>
       numeric_msgs (pi_received_msgs n) \<longrightarrow>
         compute_pi_agg n =
           (Inr (np_array
              [product_from_left (components (pi_received_msgs n) 0),
               num_sub (I 1) (product_from_left (components (pi_received_msgs n) 0))]),
            n\<lparr>pi_agg := Some (np_array
              [product_from_left (components (pi_received_msgs n) 0),
               num_sub (I 1) (product_from_left (components (pi_received_msgs n) 0))])\<rparr>)) \<and>
      ((\<forall>p \<in> set (parents n). map_of (pi_received_msgs n) p \<noteq> Some None) \<and>
       \<not> numeric_msgs (pi_received_msgs n) \<longrightarrow>
         compute_pi_agg n = (Inl TypeError, n)))"
proof -
  let ?d = "pi_received_msgs n"
  let ?p0 = "product_from_left (components ?d 0)"
  have dist: "distinct (map fst ?d)" and keys: "set (map fst ?d) = set (parents n)"
    and shp: "list_all (\<lambda>(k, msg). case msg of None \<Rightarrow> True | Some a \<Rightarrow> shape a = [cardinality n]) ?d"
    using assms by (simp_all add: node_inv_def)
  have unset: "(\<exists>p \<in> set (parents n). map_of ?d p = Some None) = (None \<in> set (map snd ?d))"
    using slot_unset_iff [OF dist, unfolded keys] .
  have root: "parents n = [] \<longrightarrow>
      compute_pi_agg n = (Inr (cpd_values n), n\<lparr>pi_agg := Some (cpd_values n)\<rparr>)"
    by (simp add: compute_pi_agg_def)
  have missing: "parents n \<noteq> [] \<longrightarrow> (\<exists>p \<in> set (parents n). map_of ?d p = Some None) \<longrightarrow>
         compute_pi_agg n = (Inl (ValueError_missing_msg ''pi''), n)"
    unfolding unset by (simp add: compute_pi_agg_def validate_PI)
  have ok: "compute_pi_agg n =
           (Inr (np_array [?p0, num_sub (I 1) ?p0]),
            n\<lparr>pi_agg := Some (np_array [?p0, num_sub (I 1) ?p0])\<rparr>)"
    if c: "parents n \<noteq> []" and a: "None \<notin> set (map snd ?d)" and f: "numeric_msgs ?d"
  proof -
    have ne: "?d \<noteq> []" using keys c by auto
    have "\<forall>m \<in> set (map (the \<circ> snd) ?d). is_numeric m \<and> shape m = [Suc 1]"
      using present_msgs [OF shp a] present_msgs [OF f [unfolded numeric_msgs_def] a] assms(2)
      by simp
    then have g: "getitems0 (map (the \<circ> snd) ?d)
        = Inr (map (\<lambda>m. Num (nums m ! 0)) (map (the \<circ> snd) ?d))"
      by (rule getitems0_numeric)
    have eq: "map (\<lambda>m. Num (nums m ! 0)) (map (the \<circ> snd) ?d) = map Num (components ?d 0)"
      by (simp add: components_msgs)
    have r: "reduce_times (map Num (components ?d 0)) = Inr (Num ?p0)"
      using ne by (intro reduce_times_nums) (simp add: components_def)
    show ?thesis
      using c a g r unfolding eq
      by (simp add: compute_pi_agg_def validate_PI Let_def)
  qed
  have other: "compute_pi_agg n = (Inl TypeError, n)"
    if c: "parents n \<noteq> []" and a: "None \<notin> set (map snd ?d)" and f: "\<not> numeric_msgs ?d"
  proof -
    let ?ms = "map (the \<circ> snd) ?d"
    have "\<forall>m \<in> set ?ms. shape m = [Suc 1]"
      using present_msgs [OF shp a] assms(2) by simp
    from getitems0_shapes [OF this] obtain xs where xs: "getitems0 ?ms = Inr xs"
      "length xs = length ?ms" "\<forall>i < length ?ms. is_numeric (?ms ! i) = (\<exists>a. xs ! i = Num a)"
      by blast
    obtain i where i: "i < length ?ms" "\<not> is_numeric (?ms ! i)"
      using present_msgs_not_numeric [OF f] by (auto simp: in_set_conv_nth simp del: set_map)
    then obtain s where "xs ! i = Str s" using xs(3) by (cases "xs ! i") auto
    then have "\<exists>x \<in> set xs. \<exists>s. x = Str s" using i(1) xs(2) by (metis nth_mem)
    from reduce_times_not_numeric [OF this] show ?thesis
      using c a xs(1) by (auto simp: compute_pi_agg_def validate_PI)
  qed
  from root missing ok other unset show ?thesis by blast
qed

lemma np_array_floats:
  "np_array [F a, F b] = FloatArray [a, b]"
  "np_array [F a, I w] = FloatArray [a, float_of_int64 w]"
  "np_array [I w, F b] = FloatArray [float_of_int64 w, b]"
  "np_array [I v, I w] = IntArray [v, w]"
  by (simp_all add: np_array_def)

theorem compute_pi_agg_bernoulli_or_witness:
  "node_inv root_node \<and> cardinality root_node = 2 \<and> parents root_node = [] \<and>
   compute_pi_agg root_node
     = (Inr (FloatArray [Fin (1/2), Fin (1/2)]),
        root_node\<lparr>pi_agg := Some (FloatArray [Fin (1/2), Fin (1/2)])\<rparr>) \<and>
   node_inv example_node \<and> cardinality example_node = 2 \<and> parents example_node \<noteq> [] \<and>
   map_of (pi_received_msgs example_node) ''B'' = Some None \<and>
   compute_pi_agg example_node = (Inl (ValueError_missing_msg ''pi''), example_node) \<and>
   node_inv two_parent_node \<and> cardinality two_parent_node = 2 \<and> parents two_parent_node \<noteq> [] \<and>
   numeric_msgs (pi_received_msgs two_parent_node) \<and>
   map_of (pi_received_msgs two_parent_node) ''A''
     = Some (Some (FloatArray [Fin (round_mag (2/5)), Fin (round_mag (3/5))])) \<and>
   map_of (pi_received_msgs two_parent_node) ''B'' = Some (Some (FloatArray [Fin (1/2), Fin (1/2)])) \<and>
   compute_pi_agg two_parent_node
     = (Inr (FloatArray [Fin (round_mag (1/5)), Fin (round_mag (4/5))]),
        two_parent_node\<lparr>pi_agg := Some (FloatArray [Fin (round_mag (1/5)), Fin (round_mag (4/5))])\<rparr>) \<and>
   node_inv (snd (update_pi_msg_from_parent example_node ''B'' (NdArray (StrArray [''a'', ''b''])))) \<and>
   \<not> numeric_msgs (pi_received_msgs
       (snd (update_pi_msg_from_parent example_node ''B'' (NdArray (StrArray [''a'', ''b'']))))) \<and>
   fst (compute_pi_agg
       (snd (update_pi_msg_from_parent example_node ''B'' (NdArray (StrArray [''a'', ''b''])))))
     = Inl TypeError"
proof -
  let ?s = "snd (update_pi_msg_from_parent example_node ''B'' (NdArray (StrArray [''a'', ''b''])))"
  have s: "?s = example_node\<lparr>pi_received_msgs :=
      [(''A'', Some (FloatArray [Fin dbl_0_4, Fin dbl_0_6])),
       (''B'', Some (StrArray [''a'', ''b'']))]\<rparr>"
    by (simp add: example_node_simps update_pi_msg_from_parent_def update_received_msg_by_key_def)
  have inv_s: "node_inv ?s" by (rule node_inv_deposit_pi [OF node_inv_example_node])
  have c1: "cardinality root_node = 2" by (simp add: root_node_simps)
  have c2: "cardinality example_node = 2" by (simp add: example_node_simps)
  have c3: "cardinality two_parent_node = 2" by (simp add: two_parent_node_simps)
  have c4: "cardinality ?s = 2" unfolding s by (simp add: example_node_simps)
  have p0: "product_from_left (components (pi_received_msgs two_parent_node) 0) = F (Fin dbl_0_2)"
    by (simp add: two_parent_node_simps product_from_left_def components_def float64_scenario_B)
  have r: "compute_pi_agg root_node
     = (Inr (FloatArray [Fin (1/2), Fin (1/2)]),
        root_node\<lparr>pi_agg := Some (FloatArray [Fin (1/2), Fin (1/2)])\<rparr>)"
    using compute_pi_agg_bernoulli_or [OF node_inv_root_node c1] by (simp add: root_node_simps)
  have m: "compute_pi_agg example_node = (Inl (ValueError_missing_msg ''pi''), example_node)"
    using compute_pi_agg_bernoulli_or [OF node_inv_example_node c2]
    by (simp add: example_node_simps)
  have t: "compute_pi_agg two_parent_node
     = (Inr (FloatArray [Fin dbl_0_2, Fin dbl_0_8]),
        two_parent_node\<lparr>pi_agg := Some (FloatArray [Fin dbl_0_2, Fin dbl_0_8])\<rparr>)"
    using compute_pi_agg_bernoulli_or [OF node_inv_two_parent_node c3, unfolded p0]
    by (simp add: two_parent_node_simps numeric_msgs_def float64_scenario_B np_array_floats
        float_of_int64_simps)
  have e: "fst (compute_pi_agg ?s) = Inl TypeError"
    using compute_pi_agg_bernoulli_or [OF inv_s c4] unfolding s
    by (simp add: example_node_simps numeric_msgs_def)
  show ?thesis
    using c1 c2 c3 r m t e inv_s s node_inv_root_node node_inv_example_node node_inv_two_parent_node
    by (simp add: root_node_simps two_parent_node_simps example_node_simps numeric_msgs_def
        round_mag_decimal)
qed

lemma underflow_node_simps:
  "underflow_node =
     \<lparr>label_id = ''Y'', children = [''Z''], parents = [''A'', ''B''], cardinality = 2,
      cpd_values = FloatArray [Fin (1/2), Fin (1/2)], pi_agg = None,
      lambda_agg = Some (FloatArray [Fin (1 / 2 ^ 600), Fin 0]),
      pi_received_msgs =
        [(''A'', Some (FloatArray [Fin (1/2), Fin (1/2)])),
         (''B'', Some (FloatArray [Fin (1 / 2 ^ 600), Fin 1]))],
      lambda_received_msgs = [(''Z'', None)]\<rparr>"
  by (simp add: underflow_node_def two_parent_node_simps del: power_numeral)

lemma replicate_2: "replicate 2 x = [x, x]"
  by (simp add: numeral_2_eq_2)

text \<open>
  C3, as the program has it. On a Bernoulli-OR node whose \<open>lambda_agg\<close> is a pair of numbers
  \<open>[l0, l1]\<close> that \<open>np.array_equal\<close> does not find equal to the vector of ones, and whose pi
  messages are numeric arrays, \<open>compute_lambda_msg_to_parent\<close> first requires the pi
  messages of all parents: with an unset slot it raises the error of the missing pi message
  before anything else. Otherwise the candidate message is \<open>[l1 + (l0 - l1) * p, l1]\<close>, every
  operation rounded in float64 or wrapping in int64, where \<open>p\<close> is the product, begun with 1
  and taken in the order of the mailbox, of component 0 of the pi messages of all parents
  but the addressed one; the operation raises \<open>InvalidLambdaMsgToParent\<close> exactly when both
  components of this candidate are zero, and returns the normalised candidate otherwise.
  The node is not changed.
\<close>

theorem compute_lambda_msg_to_parent_general:
  assumes "node_inv n" and "cardinality n = 2" and "numeric_msgs (pi_received_msgs n)"
    and "lambda_agg n = Some a" and "is_numeric a" and "nums a = [l0, l1]"
    and "\<not> np_array_equal (Some a) (np_ones 2)"
  shows
  "((\<exists>p \<in> set (parents n). map_of (pi_received_msgs n) p = Some None) \<longrightarrow>
      compute_lambda_msg_to_parent n parent_k = (Inl (ValueError_missing_msg ''pi''), n)) \<and>
   ((\<forall>p \<in> set (parents n). map_of (pi_received_msgs n) p \<noteq> Some None) \<longrightarrow>
      (fst (compute_lambda_msg_to_parent n parent_k) = Inl InvalidLambdaMsgToParent)
        = (\<not> list_ex num_truthy
               (lambda_candidate l0 l1 (p0_product_excluding (pi_received_msgs n) parent_k))) \<and>
      (list_ex num_truthy
            (lambda_candidate l0 l1 (p0_product_excluding (pi_received_msgs n) parent_k)) \<longrightarrow>
       compute_lambda_msg_to_parent n parent_k =
         (Node_normalize (np_array
            (lambda_candidate l0 l1 (p0_product_excluding (pi_received_msgs n) parent_k))),
          n)))"
proof -
  let ?d = "pi_received_msgs n"
  let ?f = "filter (\<lambda>(p, msg). p \<noteq> parent_k) ?d"
  let ?c = "lambda_candidate l0 l1 (p0_product_excluding ?d parent_k)"
  have dist: "distinct (map fst ?d)" and keys: "set (map fst ?d) = set (parents n)"
    and shp: "list_all (\<lambda>(k, msg). case msg of None \<Rightarrow> True | Some a \<Rightarrow> shape a = [cardinality n]) ?d"
    using assms(1) by (simp_all add: node_inv_def)
  have unset: "(\<exists>p \<in> set (parents n). map_of ?d p = Some None) = (None \<in> set (map snd ?d))"
    using slot_unset_iff [OF dist, unfolded keys] .
  have slow: "\<not> np_array_equal (lambda_agg n) (np_ones (cardinality n))"
    using assms(2,4,7) by simp
  have missing: "(\<exists>p \<in> set (parents n). map_of ?d p = Some None) \<longrightarrow>
      compute_lambda_msg_to_parent n parent_k = (Inl (ValueError_missing_msg ''pi''), n)"
    unfolding unset using slow by (simp add: compute_lambda_msg_to_parent_def validate_PI)
  have norm: "\<exists>v. Node_normalize (np_array ?c) = Inr v"
    by (simp add: lambda_candidate_def np_array_def)
  have ok: "compute_lambda_msg_to_parent n parent_k =
       (if \<not> list_ex num_truthy ?c then (Inl InvalidLambdaMsgToParent, n)
        else (Node_normalize (np_array ?c), n))"
    if a: "None \<notin> set (map snd ?d)"
  proof -
    have "\<forall>m \<in> set (map (the \<circ> snd) ?d). is_numeric m \<and> shape m = [Suc 1]"
      using present_msgs [OF shp a] present_msgs [OF assms(3) [unfolded numeric_msgs_def] a]
        assms(2)
      by simp
    then have "\<forall>m \<in> set (map (the \<circ> snd) ?f). is_numeric m \<and> shape m = [Suc 1]"
      by auto
    then have "getitems0 (map (the \<circ> snd) ?f) = Inr (map (\<lambda>m. Num (nums m ! 0)) (map (the \<circ> snd) ?f))"
      by (rule getitems0_numeric)
    moreover have "(\<lambda>(par_id, msg). the msg) = (the \<circ> snd :: string \<times> ndarray option \<Rightarrow> ndarray)"
      by (simp add: fun_eq_iff)
    moreover have "map (\<lambda>m. Num (nums m ! 0)) (map (the \<circ> snd) ?f) = map Num (components ?f 0)"
      by (simp add: components_msgs)
    ultimately have g: "getitems0 (map (\<lambda>(par_id, msg). the msg) ?f) = Inr (map Num (components ?f 0))"
      by (simp only:)
    have lm: "lambda_msg_of (Some a) (Num (foldl num_mul (I 1) (components ?f 0))) = Inr ?c"
      using assms(5,6) by (cases a) (simp_all add: lambda_candidate_def p0_product_excluding_def)
    obtain v where v: "Node_normalize (np_array ?c) = Inr v" using norm by blast
    show ?thesis
      using a slow g lm assms(4) v
      by (simp add: compute_lambda_msg_to_parent_def validate_PI reduce_times_from_one_nums
          del: lambda_msg_of.simps Node_normalize.simps)
  qed
  from missing ok unset norm show ?thesis by (auto split: if_splits)
qed

theorem compute_lambda_msg_to_parent_general_witness:
  "node_inv waiting_evidence_node \<and> cardinality waiting_evidence_node = 2 \<and>
   numeric_msgs (pi_received_msgs waiting_evidence_node) \<and>
   lambda_agg waiting_evidence_node = Some (FloatArray [Fin 0, Fin 1]) \<and>
   \<not> np_array_equal (Some (FloatArray [Fin 0, Fin 1])) (np_ones 2) \<and>
   map_of (pi_received_msgs waiting_evidence_node) ''B'' = Some None \<and>
   compute_lambda_msg_to_parent waiting_evidence_node ''A''
     = (Inl (ValueError_missing_msg ''pi''), waiting_evidence_node) \<and>
   node_inv evidence_node \<and> cardinality evidence_node = 2 \<and>
   numeric_msgs (pi_received_msgs evidence_node) \<and>
   lambda_agg evidence_node = Some (FloatArray [Fin 0, Fin 1]) \<and>
   map_of (pi_received_msgs evidence_node) ''A''
     = Some (Some (FloatArray [Fin dbl_0_4, Fin dbl_0_6])) \<and>
   map_of (pi_received_msgs evidence_node) ''B'' = Some (Some (FloatArray [Fin (1/2), Fin (1/2)])) \<and>
   lambda_candidate (F (Fin 0)) (F (Fin 1))
       (p0_product_excluding (pi_received_msgs evidence_node) ''A'')
     = [F (Fin (1/2)), F (Fin 1)] \<and>
   compute_lambda_msg_to_parent evidence_node ''A''
     = (Inr (FloatArray [Fin (round_mag (1/3)), Fin (round_mag (2/3))]), evidence_node) \<and>
   node_inv contradicted_node \<and> cardinality contradicted_node = 2 \<and>
   numeric_msgs (pi_received_msgs contradicted_node) \<and>
   lambda_agg contradicted_node = Some (FloatArray [Fin 0, Fin 0]) \<and>
   \<not> np_array_equal (Some (FloatArray [Fin 0, Fin 0])) (np_ones 2) \<and>
   lambda_candidate (F (Fin 0)) (F (Fin 0))
       (p0_product_excluding (pi_received_msgs contradicted_node) ''A'')
     = [F (Fin 0), F (Fin 0)] \<and>
   fst (compute_lambda_msg_to_parent contradicted_node ''A'') = Inl InvalidLambdaMsgToParent"
proof -
  have w: "cardinality waiting_evidence_node = 2"
    "numeric_msgs (pi_received_msgs waiting_evidence_node)"
    "lambda_agg waiting_evidence_node = Some (FloatArray [Fin 0, Fin 1])"
    by (simp_all add: waiting_evidence_node_def example_node_simps numeric_msgs_def)
  have e: "cardinality evidence_node = 2" "numeric_msgs (pi_received_msgs evidence_node)"
    "lambda_agg evidence_node = Some (FloatArray [Fin 0, Fin 1])"
    by (simp_all add: evidence_node_def two_parent_node_simps numeric_msgs_def)
  have c: "cardinality contradicted_node = 2" "numeric_msgs (pi_received_msgs contradicted_node)"
    "lambda_agg contradicted_node = Some (FloatArray [Fin 0, Fin 0])"
    by (simp_all add: contradicted_node_def two_parent_node_simps numeric_msgs_def)
  have a1: "is_numeric (FloatArray [Fin 0, Fin 1])"
    "nums (FloatArray [Fin 0, Fin 1]) = [F (Fin 0), F (Fin 1)]"
    "\<not> np_array_equal (Some (FloatArray [Fin 0, Fin 1])) (np_ones 2)"
    by (simp_all add: np_array_equal_pair)
  have a0: "is_numeric (FloatArray [Fin 0, Fin 0])"
    "nums (FloatArray [Fin 0, Fin 0]) = [F (Fin 0), F (Fin 0)]"
    "\<not> np_array_equal (Some (FloatArray [Fin 0, Fin 0])) (np_ones 2)"
    by (simp_all add: np_array_equal_pair)
  have ce: "lambda_candidate (F (Fin 0)) (F (Fin 1))
        (p0_product_excluding (pi_received_msgs evidence_node) ''A'') = [F (Fin (1/2)), F (Fin 1)]"
    by (simp add: evidence_node_def two_parent_node_simps lambda_candidate_def
        p0_product_excluding_def components_def float_of_int64_simps float64_products
        float64_sums)
  have cc: "lambda_candidate (F (Fin 0)) (F (Fin 0))
        (p0_product_excluding (pi_received_msgs contradicted_node) ''A'') = [F (Fin 0), F (Fin 0)]"
    by (simp add: contradicted_node_def two_parent_node_simps lambda_candidate_def
        p0_product_excluding_def components_def float_of_int64_simps float64_products
        float64_sums)
  have nz: "Node_normalize (np_array [F (Fin (1/2)), F (Fin 1)])
      = Inr (FloatArray [Fin (round_mag (1/3)), Fin (round_mag (2/3))])"
    by (simp add: np_array_floats np_sum_short float64_sums float64_quotients round_mag_values)
  have r1: "compute_lambda_msg_to_parent waiting_evidence_node ''A''
     = (Inl (ValueError_missing_msg ''pi''), waiting_evidence_node)"
    using compute_lambda_msg_to_parent_general
        [OF node_inv_waiting_evidence_node w a1, of "''A''"]
    by (simp add: waiting_evidence_node_def example_node_simps)
  have r2: "compute_lambda_msg_to_parent evidence_node ''A''
     = (Inr (FloatArray [Fin (round_mag (1/3)), Fin (round_mag (2/3))]), evidence_node)"
    using compute_lambda_msg_to_parent_general
        [OF node_inv_evidence_node e a1, of "''A''", unfolded ce nz]
    by (simp add: evidence_node_def two_parent_node_simps truthy_def)
  have r3: "fst (compute_lambda_msg_to_parent contradicted_node ''A'') = Inl InvalidLambdaMsgToParent"
    using compute_lambda_msg_to_parent_general
        [OF node_inv_contradicted_node c a0, of "''A''", unfolded cc]
    by (simp add: contradicted_node_def two_parent_node_simps truthy_def)
  have k: "map_of (pi_received_msgs waiting_evidence_node) ''B'' = Some None"
    "map_of (pi_received_msgs evidence_node) ''A''
       = Some (Some (FloatArray [Fin dbl_0_4, Fin dbl_0_6]))"
    "map_of (pi_received_msgs evidence_node) ''B'' = Some (Some (FloatArray [Fin (1/2), Fin (1/2)]))"
    by (simp_all add: waiting_evidence_node_def evidence_node_def example_node_simps
        two_parent_node_simps)
  from w e c a1(3) a0(3) ce cc r1 r2 r3 k
    node_inv_waiting_evidence_node node_inv_evidence_node node_inv_contradicted_node
  show ?thesis by blast
qed

text \<open>
  C3, as the specification has it, fails on a node that has its pi messages but no
  \<open>lambda_agg\<close> yet, the state the constructor and two deposits leave: \<open>lambda_agg\<close> is not the
  vector of ones, all pi messages are present, and the operation neither raises
  \<open>InvalidLambdaMsgToParent\<close> nor returns a message but fails with a type error when it
  reads \<open>lambda_agg[1]\<close>. And the candidate is a rounded one: with \<open>lambda_agg = [2^-600, 0]\<close>
  and \<open>p = 2^-600\<close> neither factor of \<open>(l0 - l1) * p\<close> is zero, the product underflows to
  zero, and the operation raises \<open>InvalidLambdaMsgToParent\<close>.
\<close>

theorem compute_lambda_msg_to_parent_counterexample:
  "two_parent_node
     = snd (update_pi_msg_from_parent
         (snd (update_pi_msg_from_parent
            (BernoulliOrNode_init ''Y'' [''Z''] [''A'', ''B''] (FloatArray [Fin (1/2), Fin (1/2)]))
            ''A'' (NdArray (FloatArray [Fin dbl_0_4, Fin dbl_0_6]))))
         ''B'' (NdArray (FloatArray [Fin (1/2), Fin (1/2)]))) \<and>
   lambda_agg two_parent_node = None \<and>
   \<not> np_array_equal (lambda_agg two_parent_node) (np_ones (cardinality two_parent_node)) \<and>
   map_of (pi_received_msgs two_parent_node) ''A''
     = Some (Some (FloatArray [Fin dbl_0_4, Fin dbl_0_6])) \<and>
   map_of (pi_received_msgs two_parent_node) ''B'' = Some (Some (FloatArray [Fin (1/2), Fin (1/2)])) \<and>
   compute_lambda_msg_to_parent two_parent_node ''A'' = (Inl TypeError, two_parent_node) \<and>
   lambda_agg underflow_node = Some (FloatArray [Fin (1 / 2 ^ 600), Fin 0]) \<and>
   p0_product_excluding (pi_received_msgs underflow_node) ''A'' = F (Fin (1 / 2 ^ 600)) \<and>
   np_sub (Fin (1 / 2 ^ 600)) (Fin 0) = Fin (1 / 2 ^ 600) \<and>
   (1 / 2 ^ 600 :: real) \<noteq> 0 \<and>
   np_mul (Fin (1 / 2 ^ 600)) (Fin (1 / 2 ^ 600)) = Fin 0 \<and>
   compute_lambda_msg_to_parent underflow_node ''A'' = (Inl InvalidLambdaMsgToParent, underflow_node)"
proof -
  have i: "two_parent_node
     = snd (update_pi_msg_from_parent
         (snd (update_pi_msg_from_parent
            (BernoulliOrNode_init ''Y'' [''Z''] [''A'', ''B''] (FloatArray [Fin (1/2), Fin (1/2)]))
            ''A'' (NdArray (FloatArray [Fin dbl_0_4, Fin dbl_0_6]))))
         ''B'' (NdArray (FloatArray [Fin (1/2), Fin (1/2)])))"
    by (simp add: two_parent_node_simps update_pi_msg_from_parent_def
        update_received_msg_by_key_def eval_defs)
  have t: "compute_lambda_msg_to_parent two_parent_node ''A'' = (Inl TypeError, two_parent_node)"
    by (simp add: two_parent_node_simps compute_lambda_msg_to_parent_def eval_defs
        float64_products)
  have p: "p0_product_excluding (pi_received_msgs underflow_node) ''A'' = F (Fin (1 / 2 ^ 600))"
    by (simp add: underflow_node_simps p0_product_excluding_def components_def
        float_of_int64_simps float64_underflow del: power_numeral)
  have u: "compute_lambda_msg_to_parent underflow_node ''A''
      = (Inl InvalidLambdaMsgToParent, underflow_node)"
    by (simp add: underflow_node_simps compute_lambda_msg_to_parent_def eval_defs
        np_eq_def replicate_2 float64_underflow float64_sums del: power_numeral)
  have l: "lambda_agg two_parent_node = None"
    "\<not> np_array_equal (lambda_agg two_parent_node) (np_ones (cardinality two_parent_node))"
    "map_of (pi_received_msgs two_parent_node) ''A''
       = Some (Some (FloatArray [Fin dbl_0_4, Fin dbl_0_6]))"
    "map_of (pi_received_msgs two_parent_node) ''B'' = Some (Some (FloatArray [Fin (1/2), Fin (1/2)]))"
    by (simp_all add: two_parent_node_simps)
  have lu: "lambda_agg underflow_node = Some (FloatArray [Fin (1 / 2 ^ 600), Fin 0])"
    by (simp add: underflow_node_simps del: power_numeral)
  have nz: "(1 / 2 ^ 600 :: real) \<noteq> 0" by simp
  from i l t lu p nz u float64_underflow(2,3) show ?thesis by blast
qed

section \<open>Belief and the pi message to a child\<close>

lemmas deposit_defs =
  update_pi_msg_from_parent_def update_lambda_msg_from_child_def update_received_msg_by_key_def

lemma certain_contradiction_node_simps:
  "certain_contradiction_node =
     \<lparr>label_id = ''Y'', children = [''Z''], parents = [''A''], cardinality = 2,
      cpd_values = FloatArray [Fin (1/2), Fin (1/2)], pi_agg = Some (FloatArray [Fin 1, Fin 0]),
      lambda_agg = Some (FloatArray [Fin 0, Fin 1]),
      pi_received_msgs = [(''A'', Some (FloatArray [Fin 1, Fin 0]))],
      lambda_received_msgs = [(''Z'', Some (FloatArray [Fin 0, Fin 1]))]\<rparr>"
  by (simp add: certain_contradiction_node_def deposit_defs compute_lambda_agg_def
      compute_pi_agg_def eval_defs float64_sums)



text \<open>
  C1. A node has heard from its only parent that the parent is in state 0 for certain,
  \<open>[1, 0]\<close>, and from its only child that state 0 is impossible, \<open>[0, 1]\<close>, and has computed
  both aggregates. Neither aggregate is entirely zero, their elementwise product is, and
  \<open>belief\<close> is not \<open>None\<close> but the result of dividing zero by zero in both places. On a node
  fresh from the constructor, whose aggregates are absent, \<open>belief\<close> raises.
\<close>

theorem belief_zero_product:
  "pi_agg certain_contradiction_node = Some (FloatArray [Fin 1, Fin 0]) \<and>
   lambda_agg certain_contradiction_node = Some (FloatArray [Fin 0, Fin 1]) \<and>
   np_multiply (FloatArray [Fin 1, Fin 0]) (FloatArray [Fin 0, Fin 1])
     = Inr (FloatArray [Fin 0, Fin 0]) \<and>
   belief certain_contradiction_node = Inr (Some (FloatArray [NaN, NaN])) \<and>
   belief certain_contradiction_node \<noteq> Inr None \<and>
   pi_agg root_node = None \<and> lambda_agg root_node = None \<and>
   belief root_node = Inl AttributeError"
  by (simp add: certain_contradiction_node_simps root_node_simps belief_def eval_defs
      np_sum_short float64_products float64_sums float64_quotients)







text \<open>What the guard of \<open>belief\<close> tests on two float aggregates of one length: each aggregate
  on its own, not their product.\<close>

lemma belief_of_float_aggregates:
  "pi_agg n = Some (FloatArray p) \<Longrightarrow> lambda_agg n = Some (FloatArray l) \<Longrightarrow>
   length p = length l \<Longrightarrow>
   belief n =
     (if list_ex truthy p \<and> list_ex truthy l
      then Inr (Some (FloatArray (map (\<lambda>x. np_div x (np_sum (map2 np_mul p l))) (map2 np_mul p l))))
      else Inr None)"
  by (simp add: belief_def np_binop_def float_result_def as_floats_simps)

section \<open>Properties of the model\<close>

lemma update_map:
  "distinct (map fst d) \<Longrightarrow> map_of d k = Some nd \<Longrightarrow>
   AList.update k (f nd) d = map (\<lambda>(k', x). (k', if k' = k then f x else x)) d"
proof (induction d)
  case Nil
  then show ?case by simp
next
  case (Cons a d)
  show ?case
  proof (cases "fst a = k")
    case True
    then have nd: "snd a = nd" using Cons.prems(2) by (cases a) simp
    have "k \<notin> fst ` set d" using Cons.prems(1) True by auto
    then have "map (\<lambda>(k', x). (k', if k' = k then f x else x)) d = d"
      by (intro map_idI) (auto simp: image_iff)
    then show ?thesis using True nd by (cases a) simp
  next
    case False
    then have "map_of d k = Some nd" using Cons.prems(2) by (cases a) (simp split: if_splits)
    then show ?thesis using Cons False by (cases a) simp
  qed
qed

lemma set_pi_agg_of_roots_map:
  "distinct (map fst d) \<Longrightarrow> set rs \<subseteq> set (map fst d) \<Longrightarrow>
   set_pi_agg_of_roots rs d =
     (Inr (), map (\<lambda>(k, nd). (k, if k \<in> set rs then nd\<lparr>pi_agg := Some (cpd_values nd)\<rparr> else nd)) d)"
proof (induction rs arbitrary: d)
  case Nil
  then show ?case by (simp add: case_prod_unfold)
next
  case (Cons r rs)
  then obtain nd where nd: "map_of d r = Some nd"
    by (cases "map_of d r") (auto simp: map_of_eq_None_iff)
  let ?d' = "map (\<lambda>(k', x). (k', if k' = r then x\<lparr>pi_agg := Some (cpd_values x)\<rparr> else x)) d"
  have u: "AList.update r (nd\<lparr>pi_agg := Some (cpd_values nd)\<rparr>) d = ?d'"
    using update_map [OF Cons.prems(1) nd, of "\<lambda>x. x\<lparr>pi_agg := Some (cpd_values x)\<rparr>"] .
  have k: "map fst ?d' = map fst d" by (simp add: case_prod_unfold comp_def)
  have "set_pi_agg_of_roots (r # rs) d = set_pi_agg_of_roots rs ?d'"
    using nd u by simp
  also have "\<dots> = (Inr (), map (\<lambda>(k, nd). (k, if k \<in> set rs then nd\<lparr>pi_agg := Some (cpd_values nd)\<rparr> else nd)) ?d')"
  proof (rule Cons.IH)
    show "distinct (map fst ?d')" using Cons.prems(1) by (simp only: k)
    show "set rs \<subseteq> set (map fst ?d')" using Cons.prems(2) by (simp only: k) simp
  qed
  also have "\<dots> = (Inr (), map (\<lambda>(k, nd). (k, if k \<in> set (r # rs) then nd\<lparr>pi_agg := Some (cpd_values nd)\<rparr> else nd)) d)"
    by (auto simp: case_prod_unfold)
  finally show ?case .
qed

lemma set_lambda_agg_of_leaves_map:
  "distinct (map fst d) \<Longrightarrow> set ls \<subseteq> set (map fst d) \<Longrightarrow>
   set_lambda_agg_of_leaves ls d =
     (Inr (), map (\<lambda>(k, nd). (k, if k \<in> set ls
                       then nd\<lparr>lambda_agg := Some (np_ones (cardinality nd))\<rparr> else nd)) d)"
proof (induction ls arbitrary: d)
  case Nil
  then show ?case by (simp add: case_prod_unfold)
next
  case (Cons r rs)
  then obtain nd where nd: "map_of d r = Some nd"
    by (cases "map_of d r") (auto simp: map_of_eq_None_iff)
  let ?d' = "map (\<lambda>(k', x). (k', if k' = r then x\<lparr>lambda_agg := Some (np_ones (cardinality x))\<rparr> else x)) d"
  have u: "AList.update r (nd\<lparr>lambda_agg := Some (np_ones (cardinality nd))\<rparr>) d = ?d'"
    using update_map [OF Cons.prems(1) nd, of "\<lambda>x. x\<lparr>lambda_agg := Some (np_ones (cardinality x))\<rparr>"] .
  have k: "map fst ?d' = map fst d" by (simp add: case_prod_unfold comp_def)
  have "set_lambda_agg_of_leaves (r # rs) d = set_lambda_agg_of_leaves rs ?d'"
    using nd u by simp
  also have "\<dots> = (Inr (), map (\<lambda>(k, nd). (k, if k \<in> set rs
                       then nd\<lparr>lambda_agg := Some (np_ones (cardinality nd))\<rparr> else nd)) ?d')"
  proof (rule Cons.IH)
    show "distinct (map fst ?d')" using Cons.prems(1) by (simp only: k)
    show "set rs \<subseteq> set (map fst ?d')" using Cons.prems(2) by (simp only: k) simp
  qed
  also have "\<dots> = (Inr (), map (\<lambda>(k, nd). (k, if k \<in> set (r # rs)
                       then nd\<lparr>lambda_agg := Some (np_ones (cardinality nd))\<rparr> else nd)) d)"
    by (auto simp: case_prod_unfold)
  finally show ?case .
qed

lemma zip_replicate_const: "zip xs (replicate (length xs) y) = map (\<lambda>x. (x, y)) xs"
  by (induction xs) simp_all

lemma set_model_edges:
  "set (model_edges m) = {(p, label_id nd) | p nd. nd \<in> snd ` set m \<and> p \<in> set (parents nd)}"
  by (auto simp: model_edges_def get_edges_from_nodes_def zip_replicate_const split: if_splits)

lemma model_wf_entry:
  assumes "model_wf m" and "(k, nd) \<in> set m"
  shows "label_id nd = k" and "set (parents nd) \<subseteq> set (map fst m)"
    and "set (children nd) \<subseteq> set (map fst m)"
    and "\<And>k' nd'. (k', nd') \<in> set m \<Longrightarrow> (k' \<in> set (children nd)) = (k \<in> set (parents nd'))"
proof -
  have "\<forall>x \<in> set m. case x of (k, nd) \<Rightarrow> label_id nd = k \<and>
          set (parents nd) \<subseteq> set (map fst m) \<and> set (children nd) \<subseteq> set (map fst m) \<and>
          (\<forall>y \<in> set m. case y of (k', nd') \<Rightarrow> (k' \<in> set (children nd)) = (k \<in> set (parents nd')))"
    using assms(1) unfolding model_wf_def list_all_iff by simp
  from bspec [OF this assms(2)] have e: "label_id nd = k \<and>
          set (parents nd) \<subseteq> set (map fst m) \<and> set (children nd) \<subseteq> set (map fst m) \<and>
          (\<forall>y \<in> set m. case y of (k', nd') \<Rightarrow> (k' \<in> set (children nd)) = (k \<in> set (parents nd')))"
    by simp
  then show "label_id nd = k" and "set (parents nd) \<subseteq> set (map fst m)"
    and "set (children nd) \<subseteq> set (map fst m)" by simp_all
  fix k' nd' assume "(k', nd') \<in> set m"
  with e show "(k' \<in> set (children nd)) = (k \<in> set (parents nd'))" by blast
qed

lemma model_wf_unique:
  "model_wf m \<Longrightarrow> (k, nd) \<in> set m \<Longrightarrow> (k, nd') \<in> set m \<Longrightarrow> nd' = nd"
  unfolding model_wf_def by (meson eq_key_imp_eq_value)

lemma set_graph_nodes: "model_wf m \<Longrightarrow> set (graph_nodes m) = set (map fst m)"
proof -
  assume wf: "model_wf m"
  have "p \<in> set (map fst m) \<and> c \<in> set (map fst m)" if "(p, c) \<in> set (model_edges m)" for p c
  proof -
    from that obtain nd where nd: "nd \<in> snd ` set m" "p \<in> set (parents nd)" "c = label_id nd"
      by (auto simp: set_model_edges)
    then obtain k where k: "(k, nd) \<in> set m" by auto
    show ?thesis using model_wf_entry(1,2) [OF wf k] nd k by force
  qed
  then show ?thesis by (auto simp: graph_nodes_def)
qed

lemma in_get_roots:
  assumes wf: "model_wf m" and k: "(k, nd) \<in> set m"
  shows "(k \<in> set (get_roots m)) = (parents nd = [])"
proof -
  have kk: "k \<in> set (graph_nodes m)" using set_graph_nodes [OF wf] k by force
  have "(\<exists>p. (p, k) \<in> set (model_edges m)) = (parents nd \<noteq> [])"
  proof
    assume "\<exists>p. (p, k) \<in> set (model_edges m)"
    then obtain p nd' k' where e: "(k', nd') \<in> set m" "p \<in> set (parents nd')" "k = label_id nd'"
      by (auto simp: set_model_edges)
    then have "k' = k" using model_wf_entry(1) [OF wf e(1)] by simp
    then have "nd' = nd" using model_wf_unique [OF wf k] e(1) by simp
    then show "parents nd \<noteq> []" using e(2) by auto
  next
    assume "parents nd \<noteq> []"
    then obtain p where "p \<in> set (parents nd)" by (cases "parents nd") auto
    then have "(p, label_id nd) \<in> set (model_edges m)" using k by (force simp: set_model_edges)
    then show "\<exists>p. (p, k) \<in> set (model_edges m)" using model_wf_entry(1) [OF wf k] by auto
  qed
  then show ?thesis using kk by (auto simp: get_roots_def list_ex_iff)
qed

lemma in_get_leaves:
  assumes wf: "model_wf m" and k: "(k, nd) \<in> set m"
  shows "(k \<in> set (get_leaves m)) = (children nd = [])"
proof -
  have kk: "k \<in> set (graph_nodes m)" using set_graph_nodes [OF wf] k by force
  have "(\<exists>c. (k, c) \<in> set (model_edges m)) = (children nd \<noteq> [])"
  proof
    assume "\<exists>c. (k, c) \<in> set (model_edges m)"
    then obtain nd' k' where e: "(k', nd') \<in> set m" "k \<in> set (parents nd')"
      by (auto simp: set_model_edges)
    then have "k' \<in> set (children nd)" using model_wf_entry(4) [OF wf k e(1)] by simp
    then show "children nd \<noteq> []" by auto
  next
    assume "children nd \<noteq> []"
    then obtain c where c: "c \<in> set (children nd)" by (cases "children nd") auto
    then have "c \<in> set (map fst m)" using model_wf_entry(3) [OF wf k] by auto
    then obtain nd' where n': "(c, nd') \<in> set m" by auto
    then have "k \<in> set (parents nd')" using model_wf_entry(4) [OF wf k n'] c by simp
    then have "(k, label_id nd') \<in> set (model_edges m)" using n' by (force simp: set_model_edges)
    then show "\<exists>c. (k, c) \<in> set (model_edges m)" by auto
  qed
  then show ?thesis using kk by (auto simp: get_leaves_def list_ex_iff)
qed

text \<open>\<open>init_from_edges\<close> builds a model whose declarations agree, whenever the class of the
  nodes keeps the label, the children and the parents it is given, as \<open>BernoulliOrNode\<close>
  does.\<close>

lemma update_new_key: "k \<notin> fst ` set d \<Longrightarrow> AList.update k v d = d @ [(k, v)]"
  by (induction d) auto

lemma fill_dict:
  "distinct (map fst d @ map label_id nds) \<Longrightarrow>
   foldl (\<lambda>d nd. AList.update (label_id nd) nd d) d nds = d @ map (\<lambda>nd. (label_id nd, nd)) nds"
proof (induction nds arbitrary: d)
  case Nil
  then show ?case by simp
next
  case (Cons nd nds)
  have new: "label_id nd \<notin> fst ` set d" using Cons.prems by auto
  have "distinct (map fst (d @ [(label_id nd, nd)]) @ map label_id nds)"
    using Cons.prems by auto
  from Cons.IH [OF this] show ?case using update_new_key [OF new] by simp
qed

lemma set_graph_neighbours:
  "set (graph_successors edges l) = {c. (l, c) \<in> set edges}"
  "set (graph_predecessors edges l) = {p. (p, l) \<in> set edges}"
  by (auto simp: graph_successors_def graph_predecessors_def image_iff)

lemma model_wf_init_from_edges:
  assumes "\<And>l cs ps. label_id (node_class l cs ps) = l \<and> children (node_class l cs ps) = cs \<and>
                       parents (node_class l cs ps) = ps"
  shows "model_wf (init_from_edges edges node_class)"
proof -
  let ?labels = "remdups (concat (map (\<lambda>(p, c). [p, c]) edges))"
  let ?mk = "\<lambda>label. node_class label (graph_successors edges label) (graph_predecessors edges label)"
  have lab: "map label_id (map ?mk ?labels) = ?labels"
    using assms by (simp add: comp_def)
  have "init_from_edges edges node_class = [] @ map (\<lambda>nd. (label_id nd, nd)) (map ?mk ?labels)"
    unfolding init_from_edges_def by (rule fill_dict) (simp only: lab, simp)
  then have m: "init_from_edges edges node_class = map (\<lambda>l. (l, ?mk l)) ?labels"
    using assms by (simp add: comp_def)
  have keys: "map fst (init_from_edges edges node_class) = ?labels"
    unfolding m by (simp add: comp_def)
  have ends: "p \<in> set ?labels \<and> c \<in> set ?labels" if "(p, c) \<in> set edges" for p c
    using that by force
  show ?thesis
    unfolding model_wf_def keys
    unfolding m
    using assms ends by (auto simp: list_all_iff set_graph_neighbours)
qed

lemma model_wf_chain_model: "model_wf chain_model"
  by (simp add: model_wf_def chain_model_def eval_defs)

lemma chain_model_from_edges:
  "chain_model = init_from_edges [(''X'', ''Y'')]
     (\<lambda>label cs ps. BernoulliOrNode_init label cs ps (FloatArray [Fin (1/2), Fin (1/2)]))"
  by (simp add: chain_model_def init_from_edges_def graph_successors_def graph_predecessors_def
      eval_defs)

text \<open>
  C8, as the program has it. On a model whose declarations agree, as \<open>init_from_edges\<close>
  builds it, \<open>set_boundary_conditions\<close> succeeds and changes exactly this: the \<open>pi_agg\<close> of
  every node with no parents becomes the values of the node's own table, and the
  \<open>lambda_agg\<close> of every node with no children becomes the vector of ones of the length of
  the node's cardinality. The aggregates of all other nodes, every mailbox and every other
  field stay as they were.
\<close>

theorem set_boundary_conditions_roots_and_leaves:
  assumes "model_wf m"
  shows "set_boundary_conditions m =
     (Inr (), map (\<lambda>(k, nd). (k, nd\<lparr>
        pi_agg := if parents nd = [] then Some (cpd_values nd) else pi_agg nd,
        lambda_agg := if children nd = [] then Some (np_ones (cardinality nd)) else lambda_agg nd\<rparr>)) m)"
proof -
  let ?r = "\<lambda>(k, nd). (k, if k \<in> set (get_roots m) then nd\<lparr>pi_agg := Some (cpd_values nd)\<rparr> else nd)"
  let ?l = "\<lambda>(k, nd). (k, if k \<in> set (get_leaves m)
                       then nd\<lparr>lambda_agg := Some (np_ones (cardinality nd))\<rparr> else nd)"
  have dist: "distinct (map fst m)" using assms by (simp add: model_wf_def)
  have rs: "set (get_roots m) \<subseteq> set (map fst m)"
    using set_graph_nodes [OF assms] by (auto simp: get_roots_def)
  have ls: "set (get_leaves m) \<subseteq> set (map fst m)"
    using set_graph_nodes [OF assms] by (auto simp: get_leaves_def)
  have keys: "map fst (map ?r m) = map fst m" by (simp add: case_prod_unfold comp_def)
  have r: "set_pi_agg_of_roots (get_roots m) m = (Inr (), map ?r m)"
    using set_pi_agg_of_roots_map [OF dist rs] .
  have l: "set_lambda_agg_of_leaves (get_leaves m) (map ?r m) = (Inr (), map ?l (map ?r m))"
  proof (rule set_lambda_agg_of_leaves_map)
    show "distinct (map fst (map ?r m))" using dist by (simp only: keys)
    show "set (get_leaves m) \<subseteq> set (map fst (map ?r m))" using ls by (simp only: keys)
  qed
  have "map ?l (map ?r m) = map (\<lambda>(k, nd). (k, nd\<lparr>
        pi_agg := if parents nd = [] then Some (cpd_values nd) else pi_agg nd,
        lambda_agg := if children nd = [] then Some (np_ones (cardinality nd)) else lambda_agg nd\<rparr>)) m"
  proof -
    have "?l (?r x) = (\<lambda>(k, nd). (k, nd\<lparr>
        pi_agg := if parents nd = [] then Some (cpd_values nd) else pi_agg nd,
        lambda_agg := if children nd = [] then Some (np_ones (cardinality nd)) else lambda_agg nd\<rparr>)) x"
      if "x \<in> set m" for x
    proof (cases x)
      case (Pair k nd)
      then show ?thesis
        using in_get_roots [OF assms, of k nd] in_get_leaves [OF assms, of k nd] that by simp
    qed
    then show ?thesis by simp
  qed
  then show ?thesis using r l by (simp add: set_boundary_conditions_def)
qed

theorem set_boundary_conditions_roots_and_leaves_witness:
  "model_wf chain_model \<and>
   chain_model = init_from_edges [(''X'', ''Y'')]
     (\<lambda>label cs ps. BernoulliOrNode_init label cs ps (FloatArray [Fin (1/2), Fin (1/2)])) \<and>
   set_boundary_conditions chain_model =
     (Inr (),
      [(''X'', (BernoulliOrNode_init ''X'' [''Y''] [] (FloatArray [Fin (1/2), Fin (1/2)]))
                 \<lparr>pi_agg := Some (FloatArray [Fin (1/2), Fin (1/2)])\<rparr>),
       (''Y'', (BernoulliOrNode_init ''Y'' [] [''X''] (FloatArray [Fin (1/2), Fin (1/2)]))
                 \<lparr>lambda_agg := Some (FloatArray [Fin 1, Fin 1])\<rparr>)])"
proof -
  have "set_boundary_conditions chain_model =
     (Inr (),
      [(''X'', (BernoulliOrNode_init ''X'' [''Y''] [] (FloatArray [Fin (1/2), Fin (1/2)]))
                 \<lparr>pi_agg := Some (FloatArray [Fin (1/2), Fin (1/2)])\<rparr>),
       (''Y'', (BernoulliOrNode_init ''Y'' [] [''X''] (FloatArray [Fin (1/2), Fin (1/2)]))
                 \<lparr>lambda_agg := Some (FloatArray [Fin 1, Fin 1])\<rparr>)])"
    using set_boundary_conditions_roots_and_leaves [OF model_wf_chain_model]
    by (simp add: chain_model_def eval_defs numeral_2_eq_2)
  with model_wf_chain_model chain_model_from_edges show ?thesis by blast
qed

text \<open>
  C8, as the specification has it, fails on dicts the constructor accepts. Where \<open>A\<close>
  declares the child \<open>B\<close> and \<open>B\<close> declares no parent, no edge is derived, \<open>A\<close> is a leaf of the
  graph, and its \<open>lambda_agg\<close> is set to the vector of ones although \<open>A\<close> has a child. Where
  the only node declares a parent that is no key of the dict, that parent is a root of the
  graph and the first loop raises a \<open>KeyError\<close>.
\<close>

theorem set_boundary_conditions_counterexample:
  "map_of one_sided_model ''A''
     = Some (BernoulliOrNode_init ''A'' [''B''] [] (FloatArray [Fin (1/2), Fin (1/2)])) \<and>
   children (BernoulliOrNode_init ''A'' [''B''] [] (FloatArray [Fin (1/2), Fin (1/2)])) = [''B''] \<and>
   lambda_agg (BernoulliOrNode_init ''A'' [''B''] [] (FloatArray [Fin (1/2), Fin (1/2)])) = None \<and>
   fst (set_boundary_conditions one_sided_model) = Inr () \<and>
   map_of (snd (set_boundary_conditions one_sided_model)) ''A''
     = Some ((BernoulliOrNode_init ''A'' [''B''] [] (FloatArray [Fin (1/2), Fin (1/2)]))
               \<lparr>pi_agg := Some (FloatArray [Fin (1/2), Fin (1/2)]),
                lambda_agg := Some (FloatArray [Fin 1, Fin 1])\<rparr>) \<and>
   map_of dangling_model ''B''
     = Some (BernoulliOrNode_init ''B'' [] [''A''] (FloatArray [Fin (1/2), Fin (1/2)])) \<and>
   map_of dangling_model ''A'' = None \<and>
   get_roots dangling_model = [''A''] \<and>
   set_boundary_conditions dangling_model = (Inl KeyError, dangling_model)"
proof -
  have e1: "model_edges one_sided_model = []"
    by (simp add: model_edges_def get_edges_from_nodes_def one_sided_model_def eval_defs)
  have g1: "get_roots one_sided_model = [''A'', ''B'']" "get_leaves one_sided_model = [''A'', ''B'']"
    by (simp_all add: get_roots_def get_leaves_def graph_nodes_def e1)
       (simp_all add: one_sided_model_def)
  have s1: "set_boundary_conditions one_sided_model =
     (Inr (),
      [(''A'', (BernoulliOrNode_init ''A'' [''B''] [] (FloatArray [Fin (1/2), Fin (1/2)]))
                 \<lparr>pi_agg := Some (FloatArray [Fin (1/2), Fin (1/2)]),
                  lambda_agg := Some (FloatArray [Fin 1, Fin 1])\<rparr>),
       (''B'', (BernoulliOrNode_init ''B'' [] [] (FloatArray [Fin (1/2), Fin (1/2)]))
                 \<lparr>pi_agg := Some (FloatArray [Fin (1/2), Fin (1/2)]),
                  lambda_agg := Some (FloatArray [Fin 1, Fin 1])\<rparr>)])"
    unfolding set_boundary_conditions_def g1
    by (simp add: one_sided_model_def eval_defs numeral_2_eq_2)
  have e2: "model_edges dangling_model = [(''A'', ''B'')]"
    by (simp add: model_edges_def get_edges_from_nodes_def dangling_model_def eval_defs)
  have g2: "get_roots dangling_model = [''A'']"
    by (simp add: get_roots_def graph_nodes_def e2) (simp add: dangling_model_def)
  have s2: "set_boundary_conditions dangling_model = (Inl KeyError, dangling_model)"
    unfolding set_boundary_conditions_def g2 by (simp add: dangling_model_def)
  show ?thesis
    unfolding s1 s2 g2 by (simp add: one_sided_model_def dangling_model_def eval_defs)
qed

end
